theory Spec2Isabelle
  imports Complex_Main
begin

section \<open>KHQR payment controller: data model\<close>

text \<open>
  The development embeds \<^verbatim>\<open>src/controllers/khqrPayment.js\<close> (class
  \<^verbatim>\<open>KHQRPaymentController\<close>) together with the two SQL tables it writes
  (\<^verbatim>\<open>users\<close> and \<^verbatim>\<open>transactions\<close>).

  A JavaScript number is a double. Only its comparisons and the sum
  \<^verbatim>\<open>balance + ?\<close> matter here, so a number is the rational it denotes, or one
  of the three special values; the rounding of the sum is not modelled.
\<close>

datatype jsnum = NaN | PosInf | NegInf | Fin rat

text \<open>\<^verbatim>\<open>!x\<close> on a number: true for \<^verbatim>\<open>NaN\<close> and for zero.\<close>

fun js_not :: "jsnum \<Rightarrow> bool" where
  "js_not NaN = True"
| "js_not (Fin r) = (r = 0)"
| "js_not PosInf = False"
| "js_not NegInf = False"

fun js_isNaN :: "jsnum \<Rightarrow> bool" where
  "js_isNaN NaN = True"
| "js_isNaN PosInf = False"
| "js_isNaN NegInf = False"
| "js_isNaN (Fin r) = False"

text \<open>\<^verbatim>\<open>a < b\<close> on numbers; every comparison with \<^verbatim>\<open>NaN\<close> is false.\<close>

fun js_lt :: "jsnum \<Rightarrow> jsnum \<Rightarrow> bool" where
  "js_lt NaN b = False"
| "js_lt a NaN = False"
| "js_lt PosInf b = False"
| "js_lt a NegInf = False"
| "js_lt NegInf b = True"
| "js_lt a PosInf = True"
| "js_lt (Fin x) (Fin y) = (x < y)"

fun js_le :: "jsnum \<Rightarrow> jsnum \<Rightarrow> bool" where
  "js_le NaN b = False"
| "js_le a NaN = False"
| "js_le NegInf b = True"
| "js_le a PosInf = True"
| "js_le PosInf b = False"
| "js_le a NegInf = False"
| "js_le (Fin x) (Fin y) = (x \<le> y)"

definition js_gt :: "jsnum \<Rightarrow> jsnum \<Rightarrow> bool" where
  "js_gt a b = js_lt b a"

text \<open>\<^verbatim>\<open>a + b\<close> on numbers (the sum of two finite numbers is taken exactly).\<close>

fun js_add :: "jsnum \<Rightarrow> jsnum \<Rightarrow> jsnum" where
  "js_add NaN b = NaN"
| "js_add a NaN = NaN"
| "js_add PosInf NegInf = NaN"
| "js_add NegInf PosInf = NaN"
| "js_add PosInf b = PosInf"
| "js_add NegInf b = NegInf"
| "js_add a PosInf = PosInf"
| "js_add a NegInf = NegInf"
| "js_add (Fin x) (Fin y) = Fin (x + y)"

text \<open>\<^verbatim>\<open>x || d\<close> on numbers.\<close>

definition js_or :: "jsnum \<Rightarrow> jsnum \<Rightarrow> jsnum" where
  "js_or x d = (if js_not x then d else x)"

text \<open>
  A field of a JSON body that the code only tests for truthiness and passes on:
  \<open>None\<close> is a missing field, and an empty string is falsy.
\<close>

definition truthy :: "string option \<Rightarrow> bool" where
  "truthy v = (case v of None \<Rightarrow> False | Some s \<Rightarrow> s \<noteq> [])"

section \<open>Gateway client\<close>

text \<open>
  What \<^verbatim>\<open>axios.get\<close> hands back: the request fails in transport (timeout, DNS,
  reset), or a response arrives with a status and a body. With the default
  \<^verbatim>\<open>validateStatus\<close> the promise rejects for every status outside 200..299.
\<close>

datatype 'b http = Transport_failure | Response nat 'b

definition axios_throws :: "'b http \<Rightarrow> bool" where
  "axios_throws r = (case r of Transport_failure \<Rightarrow> True
                      | Response st b \<Rightarrow> \<not> (200 \<le> st \<and> st < 300))"

text \<open>Body of \<^verbatim>\<open>/khqr/create\<close>; \<open>None\<close> as the whole body is an empty \<^verbatim>\<open>response.data\<close>.\<close>

record create_body =
  qr :: "string option"
  qrdata :: "string option"
  md5_field :: "string option"
  transactionid :: "string option"

datatype qr_result =
    QR_success (qrUrl: "string option") (qrBase64: "string option") (qrRaw: "string option")
               (md5Hash: string) (transactionId: string)
  | QR_failure string

text \<open>
  \<^verbatim>\<open>generateQRCode(amount, userId)\<close>, lines 82-139. The inputs beside the response are
  the random fallback id, the outcome of \<^verbatim>\<open>QRCode.toDataURL\<close> (\<open>None\<close> when it throws)
  and the outcome of \<^verbatim>\<open>urlToBase64\<close> (\<open>None\<close> when the download fails).
\<close>

definition generateQRCode ::
  "string \<Rightarrow> string option \<Rightarrow> string option \<Rightarrow> create_body option http \<Rightarrow> qr_result" where
  "generateQRCode randomId toDataURL urlToBase64 resp =
     (case resp of
        Transport_failure \<Rightarrow> QR_failure ''Failed to generate payment QR code''
      | Response st body \<Rightarrow>
          if axios_throws resp then QR_failure ''Failed to generate payment QR code''
          else (case body of
             None \<Rightarrow> QR_failure ''Invalid response from payment service''
           | Some d \<Rightarrow>
               if (truthy (qr d) \<or> truthy (qrdata d)) \<and> truthy (md5_field d) then
                 (let rawPayload = (if truthy (qrdata d) then qrdata d else None);
                      tid = (if truthy (transactionid d) then the (transactionid d) else randomId)
                  in if \<not> truthy (qr d) \<and> truthy rawPayload then
                       (case toDataURL of
                          Some img \<Rightarrow> QR_success (Some img) (Some img) rawPayload (the (md5_field d)) tid
                        | None \<Rightarrow> QR_success (qr d) None rawPayload (the (md5_field d)) tid)
                     else QR_success (qr d) urlToBase64 rawPayload (the (md5_field d)) tid)
               else QR_failure ''Invalid response from payment service''))"


text \<open>
  Body of \<^verbatim>\<open>/check_by_md5\<close>. \<^verbatim>\<open>responseCode\<close> is compared with \<^verbatim>\<open>=== 0\<close>, so the
  model keeps whether the field is a number, something else, or missing.
\<close>

datatype json_code = Code_num int | Code_other string | Code_missing

datatype check_result =
    Check_success (paid: bool) (responseCode: json_code)
  | Check_failure string

text \<open>\<^verbatim>\<open>checkPaymentStatus(md5Hash)\<close>, lines 142-175; an empty body is read as \<^verbatim>\<open>{}\<close>.\<close>

definition checkPaymentStatus :: "json_code option http \<Rightarrow> check_result" where
  "checkPaymentStatus resp =
     (case resp of
        Transport_failure \<Rightarrow> Check_failure ''Failed to check payment status''
      | Response st body \<Rightarrow>
          if axios_throws resp then Check_failure ''Failed to check payment status''
          else if st = 200 \<or> st = 201 then
            (let code = (case body of None \<Rightarrow> Code_missing | Some c \<Rightarrow> c)
             in Check_success (code = Code_num 0) code)
          else Check_failure ''Invalid response from payment service'')"

text \<open>The test \<^verbatim>\<open>paymentStatus.success && paymentStatus.paid\<close> of the poll loop.\<close>

definition success_and_paid :: "check_result \<Rightarrow> bool" where
  "success_and_paid r = (case r of Check_success p c \<Rightarrow> p | Check_failure e \<Rightarrow> False)"

section \<open>Controller state\<close>

text \<open>An entry of \<^verbatim>\<open>paymentCheckers\<close> (lines 245-252), keyed by chat id.\<close>

record tx =
  md5 :: string
  tran_id :: string
  message_id :: nat
  timestamp :: int
  amount :: jsnum
  completed :: bool

text \<open>
  A row of the table \<^verbatim>\<open>transactions\<close>. The \<^verbatim>\<open>id\<close> column is left out: no statement
  of the controller reads it. Times are milliseconds.
\<close>

datatype status = Pending | Completed | Expired | Failed

datatype txn_type = Topup | Purchase

datatype txid = Gateway_id string | Topup_stamp int int

record row =
  user_id :: int
  type_of :: txn_type
  row_amount :: jsnum
  status :: status
  md5_hash :: "string option"
  row_message_id :: "nat option"
  qr_url :: "string option"
  transaction_id :: txid
  row_timestamp :: int
  completed_date :: "int option"

text \<open>
  The closure of one \<^verbatim>\<open>setInterval\<close> callback of \<^verbatim>\<open>autoCheckTransaction\<close>: its
  captured arguments, its counter, and whether the timer is still scheduled. The handle
  of an interval is its index in the timer table.
\<close>

record interval =
  iv_userId :: int
  iv_md5 :: string
  iv_amount :: jsnum
  checkCount :: nat
  live :: bool

text \<open>What the bot has delivered to a chat.\<close>

datatype msg =
    Text_invalid_amount
  | Text_minimum jsnum
  | Text_maximum jsnum
  | Text_failed string
  | Text_missing_qr
  | Text_error
  | Text_confirmation jsnum
  | Text_thanks jsnum
  | Text_expired
  | Photo_styled string jsnum nat
  | Photo_raw string jsnum nat

text \<open>
  The fields of the controller, the two tables, the timers of the event loop, and a log of
  what left the process: messages delivered, messages deleted, and the number of
  \<^verbatim>\<open>/khqr/create\<close> requests sent. \<open>timeouts\<close> holds the owner of every
  \<^verbatim>\<open>setTimeout\<close> callback of \<^verbatim>\<open>deleteQRAfterTimeout\<close> that has not fired yet; the
  code keeps no handle of them.
\<close>

record state =
  minTopupAmount :: jsnum
  maxTopupAmount :: jsnum
  paymentCheckers :: "int \<rightharpoonup> tx"
  activeIntervals :: "int \<rightharpoonup> nat"
  processedMd5 :: "string set"
  intervals :: "interval list"
  timeouts :: "int list"
  users :: "int \<rightharpoonup> jsnum"
  transactions :: "row list"
  outbox :: "(int \<times> msg) list"
  deleted :: "(int \<times> nat) list"
  create_calls :: nat

text \<open>\<^verbatim>\<open>loadSettings\<close>, lines 64-73, from the two parsed settings.\<close>

definition loadSettings :: "jsnum \<Rightarrow> jsnum \<Rightarrow> state \<Rightarrow> state" where
  "loadSettings parsedMin parsedMax s =
     s\<lparr>minTopupAmount := js_or parsedMin (Fin (1 / 100)),
       maxTopupAmount := js_or parsedMax (Fin 1000)\<rparr>"

definition clearInterval :: "nat \<Rightarrow> state \<Rightarrow> state" where
  "clearInterval h s =
     (if h < length (intervals s)
      then s\<lparr>intervals := (intervals s)[h := (intervals s ! h)\<lparr>live := False\<rparr>]\<rparr>
      else s)"

text \<open>\<^verbatim>\<open>clearUserPaymentChecker\<close>, lines 428-441.\<close>

definition clearUserPaymentChecker :: "int \<Rightarrow> state \<Rightarrow> state" where
  "clearUserPaymentChecker userId s =
     (let s1 = (case activeIntervals s userId of
                  Some h \<Rightarrow> (clearInterval h s)\<lparr>activeIntervals := (activeIntervals s)(userId := None)\<rparr>
                | None \<Rightarrow> s)
      in s1\<lparr>paymentCheckers := (paymentCheckers s1)(userId := None)\<rparr>)"

text \<open>
  \<^verbatim>\<open>autoCheckTransaction\<close>, lines 290-296 and 405: the callback is registered with a
  fresh handle and the handle is stored under the user.
\<close>

definition autoCheckTransaction :: "int \<Rightarrow> string \<Rightarrow> jsnum \<Rightarrow> state \<Rightarrow> state" where
  "autoCheckTransaction userId m a s =
     s\<lparr>intervals := intervals s @
          [\<lparr>iv_userId = userId, iv_md5 = m, iv_amount = a, checkCount = 0, live = True\<rparr>],
       activeIntervals := (activeIntervals s)(userId \<mapsto> length (intervals s))\<rparr>"

text \<open>\<^verbatim>\<open>deleteQRAfterTimeout\<close>, lines 409-410 and 424: the one-shot timer is scheduled.\<close>

definition deleteQRAfterTimeout :: "int \<Rightarrow> state \<Rightarrow> state" where
  "deleteQRAfterTimeout userId s = s\<lparr>timeouts := timeouts s @ [userId]\<rparr>"

section \<open>StartTopup: \<^verbatim>\<open>generateQR\<close>\<close>

text \<open>
  Everything \<^verbatim>\<open>generateQR\<close> receives from outside during one call: the two parsed
  settings, the gateway's answer, the outcomes of rendering and of the bot calls (a photo
  call gives the new message id, \<open>None\<close> when it throws), the clock, and whether the
  insert of the pending row succeeds.
\<close>

record start_env =
  env_min :: jsnum
  env_max :: jsnum
  env_randomId :: string
  env_create :: "create_body option http"
  env_toDataURL :: "string option"
  env_urlToBase64 :: "string option"
  env_render_ok :: bool
  env_sendPhoto_styled :: "nat option"
  env_sendPhoto_raw :: "nat option"
  env_now :: int
  env_db_now :: int
  env_create_tx_ok :: bool
  env_sendMessage_ok :: bool
  env_catch_sendMessage_ok :: bool

datatype outcome = Returned | Threw

text \<open>The outer \<^verbatim>\<open>catch\<close>, lines 277-280: one more message, which may throw in turn.\<close>

definition catch_handler :: "int \<Rightarrow> start_env \<Rightarrow> state \<Rightarrow> outcome \<times> state" where
  "catch_handler chatId e s =
     (if env_catch_sendMessage_ok e
      then (Returned, s\<lparr>outbox := outbox s @ [(chatId, Text_error)]\<rparr>)
      else (Threw, s))"

text \<open>\<^verbatim>\<open>await this.bot.sendMessage(chatId, ...); return;\<close> inside the \<^verbatim>\<open>try\<close>.\<close>

definition reply :: "int \<Rightarrow> msg \<Rightarrow> start_env \<Rightarrow> state \<Rightarrow> outcome \<times> state" where
  "reply chatId m e s =
     (if env_sendMessage_ok e
      then (Returned, s\<lparr>outbox := outbox s @ [(chatId, m)]\<rparr>)
      else catch_handler chatId e s)"

text \<open>Lines 244-276, once the photo with message id \<open>mid\<close> has been delivered.\<close>

definition start_polling ::
  "int \<Rightarrow> jsnum \<Rightarrow> string option \<Rightarrow> string \<Rightarrow> string \<Rightarrow> nat \<Rightarrow> start_env \<Rightarrow> state \<Rightarrow> state" where
  "start_polling chatId a url m tid mid e s =
     (let s1 = s\<lparr>paymentCheckers := (paymentCheckers s)(chatId \<mapsto>
                  \<lparr>md5 = m, tran_id = tid, message_id = mid, timestamp = env_now e,
                   amount = a, completed = False\<rparr>)\<rparr>;
          s2 = (if env_create_tx_ok e
                then s1\<lparr>transactions := transactions s1 @
                       [\<lparr>user_id = chatId, type_of = Topup, row_amount = a, status = Pending,
                         md5_hash = Some m, row_message_id = Some mid, qr_url = url,
                         transaction_id = (if tid \<noteq> [] then Gateway_id tid
                                           else Topup_stamp (env_now e) chatId),
                         row_timestamp = env_db_now e, completed_date = None\<rparr>]\<rparr>
                else s1)
      in deleteQRAfterTimeout chatId (autoCheckTransaction chatId m a s2))"

text \<open>
  Lines 222-242: the styled card is rendered and sent; when either step throws, the raw
  QR url is sent instead. The result is the delivered photo and its message id, \<open>None\<close>
  when the second \<^verbatim>\<open>sendPhoto\<close> throws as well.
\<close>

definition deliver_qr :: "string \<Rightarrow> jsnum \<Rightarrow> start_env \<Rightarrow> (msg \<times> nat) option" where
  "deliver_qr url a e =
     (case (if env_render_ok e then env_sendPhoto_styled e else None) of
        Some mid \<Rightarrow> Some (Photo_styled url a mid, mid)
      | None \<Rightarrow>
          (case env_sendPhoto_raw e of
             Some mid \<Rightarrow> Some (Photo_raw url a mid, mid)
           | None \<Rightarrow> None))"

text \<open>
  \<^verbatim>\<open>generateQR(chatId, userId, amount)\<close>, lines 178-281. The argument \<^verbatim>\<open>userId\<close>
  is only written to the log, and the merchant settings only enter the request url.
\<close>

definition generateQR :: "int \<Rightarrow> jsnum \<Rightarrow> start_env \<Rightarrow> state \<Rightarrow> outcome \<times> state" where
  "generateQR chatId a e s =
     (let s0 = loadSettings (env_min e) (env_max e) s in
      if js_not a \<or> js_isNaN a \<or> js_le a (Fin 0) then reply chatId Text_invalid_amount e s0
      else if js_lt a (minTopupAmount s0) then reply chatId (Text_minimum (minTopupAmount s0)) e s0
      else if js_gt a (maxTopupAmount s0) then reply chatId (Text_maximum (maxTopupAmount s0)) e s0
      else
        (let s1 = s0\<lparr>create_calls := Suc (create_calls s0)\<rparr> in
         case generateQRCode (env_randomId e) (env_toDataURL e) (env_urlToBase64 e) (env_create e) of
           QR_failure err \<Rightarrow> reply chatId (Text_failed err) e s1
         | QR_success url b64 raw m tid \<Rightarrow>
             if \<not> truthy url \<or> m = [] then reply chatId Text_missing_qr e s1
             else
               (let s2 = clearUserPaymentChecker chatId s1 in
                case deliver_qr (the url) a e of
                  Some (photo, mid) \<Rightarrow>
                    (Returned, start_polling chatId a url m tid mid e
                       (s2\<lparr>outbox := outbox s2 @ [(chatId, photo)]\<rparr>))
                | None \<Rightarrow> catch_handler chatId e s2)))"

section \<open>Ledger statements\<close>

text \<open>
  \<^verbatim>\<open>UPDATE users SET balance = balance + ? WHERE telegram_id = ?\<close>, line 346: a user
  without a row is not touched.
\<close>

definition creditBalance :: "int \<Rightarrow> jsnum \<Rightarrow> (int \<rightharpoonup> jsnum) \<Rightarrow> (int \<rightharpoonup> jsnum)" where
  "creditBalance userId a us =
     (case us userId of None \<Rightarrow> us | Some b \<Rightarrow> us(userId \<mapsto> js_add b a))"

definition matches :: "string \<Rightarrow> int \<Rightarrow> row \<Rightarrow> bool" where
  "matches m userId r = (md5_hash r = Some m \<and> user_id r = userId)"

text \<open>
  Lines 352-364: the \<^verbatim>\<open>UPDATE ... SET status = "completed"\<close> on the rows of that hash
  and user, and the \<^verbatim>\<open>INSERT\<close> of a completed row when the update changed none. A
  statement that throws is caught and logged (\<open>upd_ok\<close>, \<open>ins_ok\<close> false).
\<close>

definition markCompleted ::
  "string \<Rightarrow> int \<Rightarrow> jsnum \<Rightarrow> int \<Rightarrow> int \<Rightarrow> bool \<Rightarrow> bool \<Rightarrow> row list \<Rightarrow> row list" where
  "markCompleted m userId a now db_now upd_ok ins_ok rows =
     (if \<not> upd_ok then rows
      else if length (filter (matches m userId) rows) = 0 then
        (if ins_ok then
           rows @ [\<lparr>user_id = userId, type_of = Topup, row_amount = a, status = Completed,
                    md5_hash = Some m, row_message_id = None, qr_url = None,
                    transaction_id = Topup_stamp now userId,
                    row_timestamp = db_now, completed_date = Some db_now\<rparr>]
         else rows)
      else map (\<lambda>r. if matches m userId r
                     then r\<lparr>status := Completed, completed_date := Some db_now\<rparr> else r) rows)"

text \<open>
  Lines 387-392:
  \<^verbatim>\<open>UPDATE ... SET status = "expired" WHERE md5_hash = ? AND user_id = ? AND status = "pending"\<close>.
\<close>

definition markExpired :: "string \<Rightarrow> int \<Rightarrow> bool \<Rightarrow> row list \<Rightarrow> row list" where
  "markExpired m userId upd_ok rows =
     (if \<not> upd_ok then rows
      else map (\<lambda>r. if matches m userId r \<and> status r = Pending
                     then r\<lparr>status := Expired\<rparr> else r) rows)"

section \<open>The poll loop\<close>

text \<open>
  The handlers run on one event loop. \<^verbatim>\<open>generateQR\<close>, the expiry callback and the
  cleanup run are each taken as one step. The interval callback is split where it awaits
  the gateway, in \<open>tick_pre\<close> and \<open>tick_post\<close>, so that the answer to a status request
  can arrive after other handlers have run; what follows the answer is again one step.

  What one run of the interval callback receives from outside: the gateway's answer to the
  status request, whether each bot call and each SQL statement succeeds, and the clock.
\<close>

record tick_env =
  t_status :: "json_code option http"
  t_send_confirmation_ok :: bool
  t_send_thanks_ok :: bool
  t_balance_ok :: bool
  t_complete_ok :: bool
  t_insert_ok :: bool
  t_delete_ok :: bool
  t_expire_ok :: bool
  t_now :: int
  t_db_now :: int

definition maxChecks :: nat where
  "maxChecks = 600"

text \<open>\<^verbatim>\<open>clearInterval(checkInterval); this.activeIntervals.delete(userId);\<close>\<close>

definition stop_checker :: "nat \<Rightarrow> state \<Rightarrow> state" where
  "stop_checker h s =
     (clearInterval h s)\<lparr>activeIntervals := (activeIntervals s)(iv_userId (intervals s ! h) := None)\<rparr>"

definition bump :: "nat \<Rightarrow> state \<Rightarrow> state" where
  "bump h s = s\<lparr>intervals := (intervals s)[h := (intervals s ! h)\<lparr>checkCount := Suc (checkCount (intervals s ! h))\<rparr>]\<rparr>"

text \<open>The \<^verbatim>\<open>catch\<close> of the callback, lines 394-401.\<close>

definition tick_catch :: "nat \<Rightarrow> state \<Rightarrow> state" where
  "tick_catch h s =
     (let s1 = bump h s
      in if checkCount (intervals s1 ! h) \<ge> maxChecks then stop_checker h s1 else s1)"

text \<open>
  Settle: lines 316-378, the branch taken when the status request reports a payment.
  \<open>h\<close> is the handle of the interval whose callback runs; it must be in the timer table.
  A \<^verbatim>\<open>sendMessage\<close> that throws leaves the branch for the \<^verbatim>\<open>catch\<close> of the callback;
  the two SQL blocks and \<^verbatim>\<open>deleteMessage\<close> have a \<^verbatim>\<open>try\<close> of their own. The
  assignment \<^verbatim>\<open>transaction.completed = true\<close> is not modelled: the entry is removed in
  the next statement.
\<close>

definition settle :: "nat \<Rightarrow> tick_env \<Rightarrow> state \<Rightarrow> state" where
  "settle h e s =
     (let userId = iv_userId (intervals s ! h);
          m = iv_md5 (intervals s ! h);
          a = iv_amount (intervals s ! h);
          s1 = stop_checker h s
      in if m \<in> processedMd5 s1 then s1
         else
           (let s2 = s1\<lparr>processedMd5 := insert m (processedMd5 s1)\<rparr> in
            if \<not> t_send_confirmation_ok e then tick_catch h s2
            else
              (let s3 = s2\<lparr>outbox := outbox s2 @ [(userId, Text_confirmation a)]\<rparr> in
               if \<not> t_send_thanks_ok e then tick_catch h s3
               else
                 (let s4 = s3\<lparr>outbox := outbox s3 @ [(userId, Text_thanks a)]\<rparr>;
                      s5 = (if t_balance_ok e
                            then s4\<lparr>users := creditBalance userId a (users s4)\<rparr> else s4);
                      s6 = s5\<lparr>transactions :=
                              markCompleted m userId a (t_now e) (t_db_now e)
                                (t_complete_ok e) (t_insert_ok e) (transactions s5)\<rparr>
                  in case paymentCheckers s6 userId of
                       None \<Rightarrow> s6
                     | Some t \<Rightarrow>
                         (if t_delete_ok e
                          then s6\<lparr>deleted := deleted s6 @ [(userId, message_id t)]\<rparr>
                          else s6)\<lparr>paymentCheckers := (paymentCheckers s6)(userId := None)\<rparr>))))"

text \<open>
  The callback up to its \<^verbatim>\<open>await this.checkPaymentStatus(md5)\<close>, lines 297-313: it
  either stops the loop or sends the status request.
\<close>

definition tick_pre :: "nat \<Rightarrow> state \<Rightarrow> bool \<times> state" where
  "tick_pre h s =
     (if paymentCheckers s (iv_userId (intervals s ! h)) = None then (False, stop_checker h s)
      else if iv_md5 (intervals s ! h) \<in> processedMd5 s then (False, stop_checker h s)
      else (True, s))"

text \<open>The callback from the moment the status request returns, lines 313-401.\<close>

definition tick_post :: "nat \<Rightarrow> tick_env \<Rightarrow> state \<Rightarrow> state" where
  "tick_post h e s =
     (if success_and_paid (checkPaymentStatus (t_status e)) then settle h e s
      else
        (let s1 = bump h s
         in if checkCount (intervals s1 ! h) \<ge> maxChecks then
              (let s2 = stop_checker h s1
               in s2\<lparr>transactions := markExpired (iv_md5 (intervals s ! h)) (iv_userId (intervals s ! h))
                                       (t_expire_ok e) (transactions s2)\<rparr>)
            else s1))"

text \<open>
  One firing of the interval with handle \<open>h\<close>, run to its end; a timer that is cleared
  or was never created does not fire.
\<close>

definition tick :: "nat \<Rightarrow> tick_env \<Rightarrow> state \<Rightarrow> state" where
  "tick h e s =
     (if h < length (intervals s) \<and> live (intervals s ! h)
      then (case tick_pre h s of (True, s1) \<Rightarrow> tick_post h e s1 | (False, s1) \<Rightarrow> s1)
      else s)"

text \<open>The loop: one firing per element of the list, in order.\<close>

fun run_ticks :: "nat \<Rightarrow> tick_env list \<Rightarrow> state \<Rightarrow> state" where
  "run_ticks h [] s = s"
| "run_ticks h (e # es) s = run_ticks h es (tick h e s)"

section \<open>Expiry timer and cleanup service\<close>

record timer_env =
  x_delete_ok :: bool
  x_send_ok :: bool

text \<open>The callback of \<^verbatim>\<open>deleteQRAfterTimeout(userId)\<close>, lines 410-423.\<close>

definition expire_callback :: "int \<Rightarrow> timer_env \<Rightarrow> state \<Rightarrow> state" where
  "expire_callback userId e s =
     (case paymentCheckers s userId of
        None \<Rightarrow> s
      | Some t \<Rightarrow>
          (let s1 = (if x_delete_ok e then s\<lparr>deleted := deleted s @ [(userId, message_id t)]\<rparr> else s);
               s2 = s1\<lparr>paymentCheckers := (paymentCheckers s1)(userId := None)\<rparr>
           in if x_send_ok e then s2\<lparr>outbox := outbox s2 @ [(userId, Text_expired)]\<rparr> else s2))"

text \<open>
  The oldest pending one-shot timer fires. All of them have the same delay, so they fire in
  the order in which they were scheduled.
\<close>

definition fire_timeout :: "timer_env \<Rightarrow> state \<Rightarrow> state" where
  "fire_timeout e s =
     (case timeouts s of
        [] \<Rightarrow> s
      | userId # rest \<Rightarrow> expire_callback userId e (s\<lparr>timeouts := rest\<rparr>))"

text \<open>\<^verbatim>\<open>cleanupExpiredTransactions\<close>, lines 467-477, run at time \<open>now\<close>.\<close>

definition cleanupExpiredTransactions :: "int \<Rightarrow> state \<Rightarrow> state" where
  "cleanupExpiredTransactions now s =
     s\<lparr>paymentCheckers := (\<lambda>userId.
          case paymentCheckers s userId of
            None \<Rightarrow> None
          | Some t \<Rightarrow> if now - timestamp t > 10 * 60 * 1000 then None else Some t)\<rparr>"

section \<open>Predicates of the statements\<close>

text \<open>
  The amount the specification accepts, in its own words: a finite positive number within
  the configured bounds \<open>[mn, mx]\<close>.
\<close>

definition spec_valid_amount :: "jsnum \<Rightarrow> jsnum \<Rightarrow> jsnum \<Rightarrow> bool" where
  "spec_valid_amount a mn mx =
     ((case a of Fin r \<Rightarrow> 0 < r | _ \<Rightarrow> False) \<and> js_le mn a \<and> js_le a mx)"

text \<open>The three tests of lines 184-202, as one condition.\<close>

definition rejects :: "jsnum \<Rightarrow> jsnum \<Rightarrow> jsnum \<Rightarrow> bool" where
  "rejects a mn mx = (js_not a \<or> js_isNaN a \<or> js_le a (Fin 0) \<or> js_lt a mn \<or> js_gt a mx)"

definition accepted :: "jsnum \<Rightarrow> start_env \<Rightarrow> bool" where
  "accepted a e = (\<not> rejects a (js_or (env_min e) (Fin (1 / 100))) (js_or (env_max e) (Fin 1000)))"

definition validation_msg :: "msg \<Rightarrow> bool" where
  "validation_msg v = (case v of Text_invalid_amount \<Rightarrow> True | Text_minimum x \<Rightarrow> True
                        | Text_maximum x \<Rightarrow> True | _ \<Rightarrow> False)"

text \<open>The result of \<^verbatim>\<open>generateQRCode\<close> within a call of \<^verbatim>\<open>generateQR\<close>.\<close>

definition created :: "start_env \<Rightarrow> qr_result" where
  "created e = generateQRCode (env_randomId e) (env_toDataURL e) (env_urlToBase64 e) (env_create e)"


definition check_failed :: "check_result \<Rightarrow> bool" where
  "check_failed r = (case r of Check_failure err \<Rightarrow> True | Check_success p c \<Rightarrow> False)"

text \<open>A tick environment whose status request does not report a payment.\<close>

definition unpaid :: "tick_env \<Rightarrow> bool" where
  "unpaid e = (\<not> success_and_paid (checkPaymentStatus (t_status e)))"

text \<open>
  The interval \<open>h\<close> is scheduled, its owner still has a payment request, and its hash
  is not in the processed set: the next firing reaches the status request.
\<close>

definition pollable :: "nat \<Rightarrow> state \<Rightarrow> bool" where
  "pollable h s =
     (h < length (intervals s) \<and> live (intervals s ! h)
      \<and> paymentCheckers s (iv_userId (intervals s ! h)) \<noteq> None
      \<and> iv_md5 (intervals s ! h) \<notin> processedMd5 s)"

definition stopped :: "nat \<Rightarrow> state \<Rightarrow> bool" where
  "stopped h s = (\<not> live (intervals s ! h) \<and> activeIntervals s (iv_userId (intervals s ! h)) = None)"



text \<open>The completed ledger entries of a hash.\<close>

definition completed_for :: "string \<Rightarrow> row list \<Rightarrow> row list" where
  "completed_for m rows = filter (\<lambda>r. md5_hash r = Some m \<and> status r = Completed) rows"

section \<open>Example inputs\<close>

text \<open>
  A fresh controller with two registered users; owner 42 asks for 10 USD and the gateway
  issues the hash \<open>H1\<close>; five minutes later the same owner asks for 5 USD and the gateway
  issues \<open>H2\<close>.
\<close>

definition state0 :: state where
  "state0 = \<lparr>minTopupAmount = Fin (1 / 100), maxTopupAmount = Fin 1000,
     paymentCheckers = Map.empty, activeIntervals = Map.empty, processedMd5 = {},
     intervals = [], timeouts = [], users = [42 \<mapsto> Fin 0, 7 \<mapsto> Fin 0],
     transactions = [], outbox = [], deleted = [], create_calls = 0\<rparr>"

definition start_env1 :: start_env where
  "start_env1 = \<lparr>env_min = Fin (1 / 100), env_max = Fin 1000, env_randomId = ''r1'',
     env_create = Response 200 (Some \<lparr>qr = Some ''https://qr/H1'', qrdata = None,
                                       md5_field = Some ''H1'', transactionid = Some ''T1''\<rparr>),
     env_toDataURL = None, env_urlToBase64 = Some ''b64'', env_render_ok = True,
     env_sendPhoto_styled = Some 100, env_sendPhoto_raw = None, env_now = 0, env_db_now = 0,
     env_create_tx_ok = True, env_sendMessage_ok = True, env_catch_sendMessage_ok = True\<rparr>"


definition paid_env :: tick_env where
  "paid_env = \<lparr>t_status = Response 200 (Some (Code_num 0)),
     t_send_confirmation_ok = True, t_send_thanks_ok = True, t_balance_ok = True,
     t_complete_ok = True, t_insert_ok = True, t_delete_ok = True, t_expire_ok = True,
     t_now = 3000, t_db_now = 3000\<rparr>"

definition unpaid_env :: tick_env where
  "unpaid_env = paid_env\<lparr>t_status := Response 200 (Some (Code_num 1))\<rparr>"

definition timer_ok :: timer_env where
  "timer_ok = \<lparr>x_delete_ok = True, x_send_ok = True\<rparr>"

definition state1 :: state where
  "state1 = snd (generateQR 42 (Fin 10) start_env1 state0)"


text \<open>
  The same first request when owner 42 already holds a balance of 3.
\<close>

definition state0_funded :: state where
  "state0_funded = state0\<lparr>users := [42 \<mapsto> Fin 3, 7 \<mapsto> Fin 0]\<rparr>"

definition state1_funded :: state where
  "state1_funded = snd (generateQR 42 (Fin 10) start_env1 state0_funded)"






section \<open>Evaluation of the examples\<close>

lemmas engine_defs = generateQR_def generateQRCode_def loadSettings_def reply_def catch_handler_def
  deliver_qr_def start_polling_def clearUserPaymentChecker_def clearInterval_def
  autoCheckTransaction_def deleteQRAfterTimeout_def axios_throws_def truthy_def js_or_def js_gt_def
  tick_def tick_pre_def tick_post_def settle_def stop_checker_def bump_def tick_catch_def
  checkPaymentStatus_def success_and_paid_def creditBalance_def markCompleted_def markExpired_def
  matches_def maxChecks_def expire_callback_def fire_timeout_def cleanupExpiredTransactions_def

lemma state1_eq:
  "state1 = \<lparr>minTopupAmount = Fin (1 / 100), maxTopupAmount = Fin 1000,
     paymentCheckers = [42 \<mapsto> \<lparr>md5 = ''H1'', tran_id = ''T1'', message_id = 100, timestamp = 0,
                                 amount = Fin 10, completed = False\<rparr>],
     activeIntervals = [42 \<mapsto> 0], processedMd5 = {},
     intervals = [\<lparr>iv_userId = 42, iv_md5 = ''H1'', iv_amount = Fin 10, checkCount = 0,
                   live = True\<rparr>],
     timeouts = [42], users = [42 \<mapsto> Fin 0, 7 \<mapsto> Fin 0],
     transactions = [\<lparr>user_id = 42, type_of = Topup, row_amount = Fin 10, status = Pending,
                         md5_hash = Some ''H1'', row_message_id = Some 100,
                         qr_url = Some ''https://qr/H1'', transaction_id = Gateway_id ''T1'',
                         row_timestamp = 0, completed_date = None\<rparr>],
     outbox = [(42, Photo_styled ''https://qr/H1'' (Fin 10) 100)], deleted = [],
     create_calls = 1\<rparr>"
  by (simp add: state1_def state0_def start_env1_def engine_defs Let_def)

lemma state1_funded_eq:
  "state1_funded = state1\<lparr>users := [42 \<mapsto> Fin 3, 7 \<mapsto> Fin 0]\<rparr>"
  by (simp add: state1_funded_def state0_funded_def state1_def state0_def start_env1_def
        engine_defs Let_def)

section \<open>Validation of the amount\<close>

lemma rejects_if_invalid:
  "\<not> spec_valid_amount a mn mx \<Longrightarrow> mx \<noteq> PosInf \<Longrightarrow> mn \<noteq> NaN \<Longrightarrow> mx \<noteq> NaN \<Longrightarrow> rejects a mn mx"
  by (cases a; cases mn; cases mx) (auto simp: spec_valid_amount_def rejects_def js_gt_def)

lemma js_or_not_NaN: "d \<noteq> NaN \<Longrightarrow> js_or x d \<noteq> NaN"
  by (cases x) (auto simp: js_or_def)

lemma reply_state: "snd (reply c m e s) = s\<lparr>outbox := outbox (snd (reply c m e s))\<rparr>"
  by (simp add: reply_def catch_handler_def)

lemma reply_sent:
  "env_sendMessage_ok e \<Longrightarrow> reply c m e s = (Returned, s\<lparr>outbox := outbox s @ [(c, m)]\<rparr>)"
  by (simp add: reply_def)

lemma generateQR_rejected:
  assumes "rejects a (js_or (env_min e) (Fin (1 / 100))) (js_or (env_max e) (Fin 1000))"
  shows "generateQR c a e s =
           reply c (if js_not a \<or> js_isNaN a \<or> js_le a (Fin 0) then Text_invalid_amount
                    else if js_lt a (js_or (env_min e) (Fin (1 / 100)))
                    then Text_minimum (js_or (env_min e) (Fin (1 / 100)))
                    else Text_maximum (js_or (env_max e) (Fin 1000)))
             e (loadSettings (env_min e) (env_max e) s)"
  using assms
  by (auto simp: generateQR_def rejects_def Let_def loadSettings_def)

lemma generateQR_rejected_msg:
  assumes "rejects a (js_or (env_min e) (Fin (1 / 100))) (js_or (env_max e) (Fin 1000))"
  obtains v where "validation_msg v"
    and "generateQR c a e s = reply c v e (loadSettings (env_min e) (env_max e) s)"
proof -
  let ?v = "if js_not a \<or> js_isNaN a \<or> js_le a (Fin 0) then Text_invalid_amount
            else if js_lt a (js_or (env_min e) (Fin (1 / 100)))
            then Text_minimum (js_or (env_min e) (Fin (1 / 100)))
            else Text_maximum (js_or (env_max e) (Fin 1000))"
  have "validation_msg ?v" by (simp add: validation_msg_def)
  with generateQR_rejected [OF assms] that show ?thesis by blast
qed

lemma loadSettings_frame:
  "create_calls ((loadSettings mn mx s)\<lparr>outbox := ob\<rparr>) = create_calls s"
  "transactions ((loadSettings mn mx s)\<lparr>outbox := ob\<rparr>) = transactions s"
  "intervals ((loadSettings mn mx s)\<lparr>outbox := ob\<rparr>) = intervals s"
  "timeouts ((loadSettings mn mx s)\<lparr>outbox := ob\<rparr>) = timeouts s"
  "paymentCheckers ((loadSettings mn mx s)\<lparr>outbox := ob\<rparr>) = paymentCheckers s"
  "activeIntervals ((loadSettings mn mx s)\<lparr>outbox := ob\<rparr>) = activeIntervals s"
  "processedMd5 ((loadSettings mn mx s)\<lparr>outbox := ob\<rparr>) = processedMd5 s"
  "users ((loadSettings mn mx s)\<lparr>outbox := ob\<rparr>) = users s"
  "deleted ((loadSettings mn mx s)\<lparr>outbox := ob\<rparr>) = deleted s"
  by (simp_all add: loadSettings_def)

text \<open>
  Claim C6, amended. Under a configured maximum other than \<^verbatim>\<open>Infinity\<close>, an amount
  that is not a finite positive number, or that lies outside the configured bounds, is
  rejected by \<^verbatim>\<open>generateQR\<close> before anything happens: no
  \<^verbatim>\<open>/khqr/create\<close> request is sent, the ledger keeps its rows, no interval and no
  one-shot timer is scheduled, no payment request is stored; and when the bot can send, the
  single message that leaves is one of the three validation messages. The amount is a
  JavaScript number, as the one caller passes the result of \<^verbatim>\<open>parseFloat\<close>.
\<close>

theorem invalid_amount_rejected_without_side_effect:
  assumes invalid: "\<not> spec_valid_amount a (js_or (env_min e) (Fin (1 / 100)))
                        (js_or (env_max e) (Fin 1000))"
      and finite_max: "js_or (env_max e) (Fin 1000) \<noteq> PosInf"
  shows "create_calls (snd (generateQR c a e s)) = create_calls s
       \<and> transactions (snd (generateQR c a e s)) = transactions s
       \<and> intervals (snd (generateQR c a e s)) = intervals s
       \<and> timeouts (snd (generateQR c a e s)) = timeouts s
       \<and> paymentCheckers (snd (generateQR c a e s)) = paymentCheckers s
       \<and> activeIntervals (snd (generateQR c a e s)) = activeIntervals s
       \<and> processedMd5 (snd (generateQR c a e s)) = processedMd5 s
       \<and> users (snd (generateQR c a e s)) = users s
       \<and> deleted (snd (generateQR c a e s)) = deleted s
       \<and> (env_sendMessage_ok e \<longrightarrow>
            fst (generateQR c a e s) = Returned
            \<and> outbox (snd (generateQR c a e s))
                = outbox s @ [(c, snd (last (outbox (snd (generateQR c a e s)))))]
            \<and> validation_msg (snd (last (outbox (snd (generateQR c a e s))))))"
proof -
  let ?s0 = "loadSettings (env_min e) (env_max e) s"
  have "rejects a (js_or (env_min e) (Fin (1 / 100))) (js_or (env_max e) (Fin 1000))"
    using invalid finite_max by (intro rejects_if_invalid js_or_not_NaN) simp_all
  then obtain v where v: "validation_msg v" and g: "generateQR c a e s = reply c v e ?s0"
    by (rule generateQR_rejected_msg)
  have frame: "snd (generateQR c a e s) = ?s0\<lparr>outbox := outbox (snd (generateQR c a e s))\<rparr>"
    unfolding g by (rule reply_state)
  have sent: "generateQR c a e s = (Returned, ?s0\<lparr>outbox := outbox s @ [(c, v)]\<rparr>)"
    if "env_sendMessage_ok e"
    unfolding g using that by (simp add: reply_sent loadSettings_def)
  have quiet: "create_calls (snd (generateQR c a e s)) = create_calls s
       \<and> transactions (snd (generateQR c a e s)) = transactions s
       \<and> intervals (snd (generateQR c a e s)) = intervals s
       \<and> timeouts (snd (generateQR c a e s)) = timeouts s
       \<and> paymentCheckers (snd (generateQR c a e s)) = paymentCheckers s
       \<and> activeIntervals (snd (generateQR c a e s)) = activeIntervals s
       \<and> processedMd5 (snd (generateQR c a e s)) = processedMd5 s
       \<and> users (snd (generateQR c a e s)) = users s
       \<and> deleted (snd (generateQR c a e s)) = deleted s"
    by (subst (1 2 3 4 5 6 7 8 9) frame) (simp add: loadSettings_frame)
  show ?thesis using quiet v sent by auto
qed

text \<open>
  The amount \<open>-1\<close> of the specification's scenario C, sent by owner 42 to the fresh
  controller: the hypotheses hold, and nothing but the validation message is produced.
\<close>

theorem invalid_amount_rejected_witness:
  "(\<not> spec_valid_amount (Fin (- 1)) (js_or (env_min start_env1) (Fin (1 / 100)))
        (js_or (env_max start_env1) (Fin 1000))
    \<and> js_or (env_max start_env1) (Fin 1000) \<noteq> PosInf
    \<and> env_sendMessage_ok start_env1)
   \<and> (create_calls (snd (generateQR 42 (Fin (- 1)) start_env1 state0)) = create_calls state0
    \<and> transactions (snd (generateQR 42 (Fin (- 1)) start_env1 state0)) = transactions state0
    \<and> intervals (snd (generateQR 42 (Fin (- 1)) start_env1 state0)) = intervals state0
    \<and> timeouts (snd (generateQR 42 (Fin (- 1)) start_env1 state0)) = timeouts state0
    \<and> fst (generateQR 42 (Fin (- 1)) start_env1 state0) = Returned
    \<and> validation_msg (snd (last (outbox (snd (generateQR 42 (Fin (- 1)) start_env1 state0))))))"
proof -
  have h1: "\<not> spec_valid_amount (Fin (- 1)) (js_or (env_min start_env1) (Fin (1 / 100)))
        (js_or (env_max start_env1) (Fin 1000))"
    by (simp add: spec_valid_amount_def)
  have h2: "js_or (env_max start_env1) (Fin 1000) \<noteq> PosInf"
    by (simp add: start_env1_def js_or_def)
  have h3: "env_sendMessage_ok start_env1" by (simp add: start_env1_def)
  from invalid_amount_rejected_without_side_effect [OF h1 h2, of 42 state0] h3
  have "create_calls (snd (generateQR 42 (Fin (- 1)) start_env1 state0)) = create_calls state0
    \<and> transactions (snd (generateQR 42 (Fin (- 1)) start_env1 state0)) = transactions state0
    \<and> intervals (snd (generateQR 42 (Fin (- 1)) start_env1 state0)) = intervals state0
    \<and> timeouts (snd (generateQR 42 (Fin (- 1)) start_env1 state0)) = timeouts state0
    \<and> fst (generateQR 42 (Fin (- 1)) start_env1 state0) = Returned
    \<and> validation_msg (snd (last (outbox (snd (generateQR 42 (Fin (- 1)) start_env1 state0)))))"
    by blast
  with h1 h2 h3 show ?thesis by blast
qed

text \<open>
  The claim as stated rejects every amount that is not a finite number. With
  \<^verbatim>\<open>MAX_TOPUP_AMOUNT=Infinity\<close> in the settings file, the amount \<^verbatim>\<open>Infinity\<close> is
  not zero, not \<^verbatim>\<open>NaN\<close>, not \<^verbatim>\<open><= 0\<close>, not below the minimum and not above the
  maximum: the gateway is called, a pending entry is written, and a poll loop and an
  expiry timer are scheduled.
\<close>

theorem infinite_amount_counterexample:
  "\<not> spec_valid_amount PosInf (js_or (env_min (start_env1\<lparr>env_max := PosInf\<rparr>)) (Fin (1 / 100)))
        (js_or (env_max (start_env1\<lparr>env_max := PosInf\<rparr>)) (Fin 1000))
   \<and> create_calls (snd (generateQR 42 PosInf (start_env1\<lparr>env_max := PosInf\<rparr>) state0)) = 1
   \<and> map status (transactions (snd (generateQR 42 PosInf (start_env1\<lparr>env_max := PosInf\<rparr>) state0)))
        = [Pending]
   \<and> map live (intervals (snd (generateQR 42 PosInf (start_env1\<lparr>env_max := PosInf\<rparr>) state0)))
        = [True]
   \<and> timeouts (snd (generateQR 42 PosInf (start_env1\<lparr>env_max := PosInf\<rparr>) state0)) = [42]"
  by (simp add: spec_valid_amount_def state0_def start_env1_def engine_defs Let_def)

section \<open>Settlement\<close>

lemma stop_checker_fields [simp]:
  "paymentCheckers (stop_checker h s) = paymentCheckers s"
  "processedMd5 (stop_checker h s) = processedMd5 s"
  "users (stop_checker h s) = users s"
  "transactions (stop_checker h s) = transactions s"
  "outbox (stop_checker h s) = outbox s"
  "deleted (stop_checker h s) = deleted s"
  "timeouts (stop_checker h s) = timeouts s"
  "create_calls (stop_checker h s) = create_calls s"
  "length (intervals (stop_checker h s)) = length (intervals s)"
  "activeIntervals (stop_checker h s) = (activeIntervals s)(iv_userId (intervals s ! h) := None)"
  by (simp_all add: stop_checker_def clearInterval_def)

lemma stop_checker_nth:
  "h < length (intervals s) \<Longrightarrow>
   intervals (stop_checker h s) ! k =
     (if k = h then (intervals s ! h)\<lparr>live := False\<rparr> else intervals s ! k)"
  by (simp add: stop_checker_def clearInterval_def nth_list_update)

lemma bump_fields [simp]:
  "paymentCheckers (bump h s) = paymentCheckers s"
  "processedMd5 (bump h s) = processedMd5 s"
  "users (bump h s) = users s"
  "transactions (bump h s) = transactions s"
  "outbox (bump h s) = outbox s"
  "deleted (bump h s) = deleted s"
  "timeouts (bump h s) = timeouts s"
  "create_calls (bump h s) = create_calls s"
  "activeIntervals (bump h s) = activeIntervals s"
  "length (intervals (bump h s)) = length (intervals s)"
  by (simp_all add: bump_def)

lemma bump_nth:
  "h < length (intervals s) \<Longrightarrow>
   intervals (bump h s) ! k =
     (if k = h then (intervals s ! h)\<lparr>checkCount := Suc (checkCount (intervals s ! h))\<rparr>
      else intervals s ! k)"
  by (simp add: bump_def nth_list_update)

lemma tick_catch_fields [simp]:
  "paymentCheckers (tick_catch h s) = paymentCheckers s"
  "processedMd5 (tick_catch h s) = processedMd5 s"
  "users (tick_catch h s) = users s"
  "transactions (tick_catch h s) = transactions s"
  "outbox (tick_catch h s) = outbox s"
  "deleted (tick_catch h s) = deleted s"
  "timeouts (tick_catch h s) = timeouts s"
  "create_calls (tick_catch h s) = create_calls s"
  "length (intervals (tick_catch h s)) = length (intervals s)"
  by (simp_all add: tick_catch_def Let_def)

lemma live_False_id: "\<not> live c \<Longrightarrow> c\<lparr>live := False\<rparr> = c"
  by (cases c) simp

lemma stop_checker_id:
  assumes "stopped h s"
  shows "stop_checker h s = s"
proof -
  from assms have l: "(intervals s ! h)\<lparr>live := False\<rparr> = intervals s ! h"
    and a: "(activeIntervals s)(iv_userId (intervals s ! h) := None) = activeIntervals s"
    by (auto simp: stopped_def live_False_id)
  show ?thesis
    by (simp add: stop_checker_def clearInterval_def l a)
qed

lemma tick_catch_nth:
  "h < length (intervals s) \<Longrightarrow>
   intervals (tick_catch h s) ! k =
     (if k = h
      then (intervals s ! h)\<lparr>checkCount := Suc (checkCount (intervals s ! h)),
             live := (if maxChecks \<le> Suc (checkCount (intervals s ! h)) then False
                      else live (intervals s ! h))\<rparr>
      else intervals s ! k)"
  by (cases "intervals s ! h") (simp add: tick_catch_def Let_def stop_checker_nth bump_nth)

lemma tick_catch_active:
  "h < length (intervals s) \<Longrightarrow> activeIntervals s (iv_userId (intervals s ! h)) = None \<Longrightarrow>
   activeIntervals (tick_catch h s) = activeIntervals s"
  by (simp add: tick_catch_def Let_def bump_nth fun_upd_idem)

lemma settle_processed:
  "iv_md5 (intervals s ! h) \<in> processedMd5 s \<Longrightarrow> settle h e s = stop_checker h s"
  by (simp add: settle_def Let_def)

lemma settle_marks_processed: "iv_md5 (intervals s ! h) \<in> processedMd5 (settle h e s)"
  by (simp add: settle_def Let_def split: option.splits)

lemma settle_length [simp]: "length (intervals (settle h e s)) = length (intervals s)"
  by (simp add: settle_def Let_def split: option.splits)

lemma settle_nth_fields:
  "h < length (intervals s) \<Longrightarrow>
   iv_md5 (intervals (settle h e s) ! k) = iv_md5 (intervals s ! k) \<and>
   iv_userId (intervals (settle h e s) ! k) = iv_userId (intervals s ! k) \<and>
   iv_amount (intervals (settle h e s) ! k) = iv_amount (intervals s ! k)"
  by (simp add: settle_def Let_def stop_checker_nth tick_catch_nth split: option.splits)

lemma settle_not_live:
  "h < length (intervals s) \<Longrightarrow> \<not> live (intervals (settle h e s) ! h)"
  by (simp add: settle_def Let_def stop_checker_nth tick_catch_nth split: option.splits)

lemma settle_inactive:
  "h < length (intervals s) \<Longrightarrow>
   activeIntervals (settle h e s) (iv_userId (intervals s ! h)) = None"
  by (simp add: settle_def Let_def stop_checker_nth tick_catch_active split: option.splits)

lemma settle_stopped: "h < length (intervals s) \<Longrightarrow> stopped h (settle h e s)"
  by (simp add: stopped_def settle_not_live settle_inactive settle_nth_fields)

lemma settle_twice:
  assumes "h < length (intervals s)"
  shows "settle h e2 (settle h e1 s) = settle h e1 s"
proof -
  let ?s1 = "settle h e1 s"
  have "iv_md5 (intervals ?s1 ! h) \<in> processedMd5 ?s1"
    using settle_nth_fields [OF assms, of e1 h] settle_marks_processed [of s h e1] by simp
  then have "settle h e2 ?s1 = stop_checker h ?s1" by (rule settle_processed)
  also have "\<dots> = ?s1" using settle_stopped [OF assms] by (rule stop_checker_id)
  finally show ?thesis .
qed

lemma settle_same_hash_ledger:
  assumes "h < length (intervals s)"
      and "iv_md5 (intervals s ! k) = iv_md5 (intervals s ! h)"
  shows "users (settle k e2 (settle h e1 s)) = users (settle h e1 s)"
    and "transactions (settle k e2 (settle h e1 s)) = transactions (settle h e1 s)"
proof -
  let ?s1 = "settle h e1 s"
  have "iv_md5 (intervals ?s1 ! k) \<in> processedMd5 ?s1"
    using settle_nth_fields [OF assms(1), of e1 k] settle_marks_processed [of s h e1] assms(2)
    by simp
  then have eq: "settle k e2 ?s1 = stop_checker k ?s1" by (rule settle_processed)
  show "users (settle k e2 ?s1) = users ?s1" by (simp add: eq)
  show "transactions (settle k e2 ?s1) = transactions ?s1" by (simp add: eq)
qed

lemma settle_effect:
  assumes "iv_md5 (intervals s ! h) \<notin> processedMd5 s"
      and "t_send_confirmation_ok e" "t_send_thanks_ok e"
  shows "users (settle h e s) =
           (if t_balance_ok e
            then creditBalance (iv_userId (intervals s ! h)) (iv_amount (intervals s ! h)) (users s)
            else users s)"
    and "transactions (settle h e s) =
           markCompleted (iv_md5 (intervals s ! h)) (iv_userId (intervals s ! h))
             (iv_amount (intervals s ! h)) (t_now e) (t_db_now e) (t_complete_ok e) (t_insert_ok e)
             (transactions s)"
  using assms by (simp_all add: settle_def Let_def split: option.splits)

lemma completed_for_map:
  assumes "completed_for m rows = []"
  shows "length (completed_for m (map (\<lambda>r. if matches m u r
            then r\<lparr>status := Completed, completed_date := Some d\<rparr> else r) rows))
         = length (filter (matches m u) rows)"
  using assms by (induction rows) (auto simp: completed_for_def matches_def split: if_splits)

lemma completed_for_markCompleted:
  assumes "completed_for m rows = []" "length (filter (matches m u) rows) \<le> 1"
  shows "length (completed_for m (markCompleted m u a now d True True rows)) = 1"
proof (cases "length (filter (matches m u) rows) = 0")
  case True
  then show ?thesis using assms(1) by (simp add: markCompleted_def completed_for_def)
next
  case False
  with assms(2) have "length (filter (matches m u) rows) = 1" by linarith
  with False show ?thesis
    using completed_for_map [OF assms(1), of u d] by (simp add: markCompleted_def)
qed

lemma markCompleted_has_completed:
  "\<exists>r \<in> set (markCompleted m u a now d True True rows).
      md5_hash r = Some m \<and> user_id r = u \<and> status r = Completed"
proof (cases "filter (matches m u) rows")
  case Nil
  then show ?thesis by (simp add: markCompleted_def)
next
  case (Cons r rs)
  then have "r \<in> set (filter (matches m u) rows)" by simp
  then have r: "r \<in> set rows" "matches m u r" by auto
  have "length (filter (matches m u) rows) \<noteq> 0" using Cons by simp
  then have "markCompleted m u a now d True True rows
     = map (\<lambda>r. if matches m u r then r\<lparr>status := Completed, completed_date := Some d\<rparr>
                else r) rows"
    by (simp add: markCompleted_def)
  moreover have "r\<lparr>status := Completed, completed_date := Some d\<rparr> \<in>
     set (map (\<lambda>r. if matches m u r then r\<lparr>status := Completed, completed_date := Some d\<rparr>
                    else r) rows)"
    using r by force
  ultimately show ?thesis using r(2)
    by (intro bexI [where x = "r\<lparr>status := Completed, completed_date := Some d\<rparr>"])
       (simp_all add: matches_def)
qed

text \<open>
  The guard on the processed set, for every state and every outcome of the calls: a second
  run of Settle for the same interval leaves the whole state as the first run left it; a
  run of Settle from any other interval that polls the same hash leaves balances and ledger
  as they are; a run of Settle puts its hash in the processed set, and in any state whose
  processed set holds the hash a run of Settle changes neither a balance nor the ledger.
  The credit and the completed entry are there once only when the first run goes through:
  the hash was not processed, both messages are sent, the three statements succeed, the
  owner has a balance row, and the ledger holds no completed entry and at most one entry
  of the owner for the hash.
\<close>

lemma settle_guard:
  assumes h: "h < length (intervals s)"
      and same: "iv_md5 (intervals s ! k) = iv_md5 (intervals s ! h)"
  shows "settle h e2 (settle h e1 s) = settle h e1 s
       \<and> users (settle k e2 (settle h e1 s)) = users (settle h e1 s)
       \<and> transactions (settle k e2 (settle h e1 s)) = transactions (settle h e1 s)
       \<and> iv_md5 (intervals s ! h) \<in> processedMd5 (settle h e1 s)
       \<and> (iv_md5 (intervals s ! h) \<in> processedMd5 s
            \<longrightarrow> users (settle h e1 s) = users s \<and> transactions (settle h e1 s) = transactions s)
       \<and> (iv_md5 (intervals s ! h) \<notin> processedMd5 s
            \<and> t_send_confirmation_ok e1 \<and> t_send_thanks_ok e1
            \<and> t_balance_ok e1 \<and> t_complete_ok e1 \<and> t_insert_ok e1
            \<and> users s (iv_userId (intervals s ! h)) = Some b
            \<and> completed_for (iv_md5 (intervals s ! h)) (transactions s) = []
            \<and> length (filter (matches (iv_md5 (intervals s ! h)) (iv_userId (intervals s ! h)))
                        (transactions s)) \<le> 1
          \<longrightarrow> users (settle k e2 (settle h e1 s)) (iv_userId (intervals s ! h))
                = Some (js_add b (iv_amount (intervals s ! h)))
            \<and> length (completed_for (iv_md5 (intervals s ! h))
                        (transactions (settle k e2 (settle h e1 s)))) = 1)"
proof -
  note again = settle_same_hash_ledger [OF h same, of e2 e1]
  have once: "users (settle h e1 s) (iv_userId (intervals s ! h))
                = Some (js_add b (iv_amount (intervals s ! h)))
            \<and> length (completed_for (iv_md5 (intervals s ! h)) (transactions (settle h e1 s))) = 1"
    if "iv_md5 (intervals s ! h) \<notin> processedMd5 s"
       "t_send_confirmation_ok e1" "t_send_thanks_ok e1"
       "t_balance_ok e1" "t_complete_ok e1" "t_insert_ok e1"
       "users s (iv_userId (intervals s ! h)) = Some b"
       "completed_for (iv_md5 (intervals s ! h)) (transactions s) = []"
       "length (filter (matches (iv_md5 (intervals s ! h)) (iv_userId (intervals s ! h)))
                        (transactions s)) \<le> 1"
    using that settle_effect [OF that(1,2,3)] completed_for_markCompleted [OF that(8,9)]
    by (simp add: creditBalance_def)
  have guard: "users (settle h e1 s) = users s \<and> transactions (settle h e1 s) = transactions s"
    if "iv_md5 (intervals s ! h) \<in> processedMd5 s"
    using settle_processed [OF that, of e1] by simp
  show ?thesis
    using settle_twice [OF h] again once guard settle_marks_processed [of s h e1] by simp
qed

text \<open>
  Claim C1. The claim has two calls of Settle for one hash credit the owner's balance
  exactly once and leave exactly one completed ledger entry. The hash is put in the
  processed set (line 324) before the two messages to the owner are awaited (lines 332 and
  338), and the credit (line 346) and the ledger statements (lines 354-361) come after
  them in the same \<^verbatim>\<open>try\<close>. On the request of owner 42 for 10 USD with hash \<open>H1\<close>,
  the owner holding a balance of 3: when the first message throws, the first Settle marks
  the hash processed and credits nothing; the second Settle, with every call succeeding,
  stops at the guard of line 321 and returns the state as it found it. After both calls
  the balance is 3, credited zero times, and the ledger holds no completed entry, the
  entry of \<open>H1\<close> being pending. When the messages are sent, the same two calls give the
  balance 13, not 23, and one completed entry.
\<close>

theorem repeated_settle_after_failed_confirmation:
  "settle 0 paid_env (settle 0 (paid_env\<lparr>t_send_confirmation_ok := False\<rparr>) state1_funded)
     = settle 0 (paid_env\<lparr>t_send_confirmation_ok := False\<rparr>) state1_funded
   \<and> ''H1'' \<in> processedMd5 (settle 0 (paid_env\<lparr>t_send_confirmation_ok := False\<rparr>) state1_funded)
   \<and> users (settle 0 paid_env
        (settle 0 (paid_env\<lparr>t_send_confirmation_ok := False\<rparr>) state1_funded)) 42 = Some (Fin 3)
   \<and> completed_for ''H1'' (transactions (settle 0 paid_env
        (settle 0 (paid_env\<lparr>t_send_confirmation_ok := False\<rparr>) state1_funded))) = []
   \<and> map status (transactions (settle 0 paid_env
        (settle 0 (paid_env\<lparr>t_send_confirmation_ok := False\<rparr>) state1_funded))) = [Pending]
   \<and> users (settle 0 paid_env (settle 0 paid_env state1_funded)) 42 = Some (Fin 13)
   \<and> map status (completed_for ''H1''
        (transactions (settle 0 paid_env (settle 0 paid_env state1_funded)))) = [Completed]"
  by (simp add: state1_funded_eq state1_eq paid_env_def completed_for_def engine_defs Let_def)

text \<open>
  Claim C2. The claim asks that the balance credit and the ledger transition to completed
  are one transaction. The code issues them as two statements, each in a \<^verbatim>\<open>try\<close> of
  its own (lines 343-349 and 352-364), with no \<^verbatim>\<open>BEGIN\<close>/\<^verbatim>\<open>COMMIT\<close> around them.
  On the request of owner 42 (10 USD, hash \<open>H1\<close>), with the gateway reporting the
  payment: when the balance statement throws, the entry is completed and the balance is
  still 0; when the ledger statement throws, the balance is 10 and the entry is still
  pending.
\<close>

theorem settle_split_state:
  "users (tick 0 (paid_env\<lparr>t_balance_ok := False\<rparr>) state1) 42 = Some (Fin 0)
   \<and> map status (transactions (tick 0 (paid_env\<lparr>t_balance_ok := False\<rparr>) state1)) = [Completed]
   \<and> users (tick 0 (paid_env\<lparr>t_complete_ok := False\<rparr>) state1) 42 = Some (Fin 10)
   \<and> map status (transactions (tick 0 (paid_env\<lparr>t_complete_ok := False\<rparr>) state1)) = [Pending]"
  by (simp add: state1_eq paid_env_def engine_defs Let_def)

text \<open>
  Claim C3. The claim asks that a failing notification never prevents the credit. In the
  code the two confirmation messages are sent before the credit and inside the outer
  \<^verbatim>\<open>try\<close> (lines 332-340): when the first \<^verbatim>\<open>sendMessage\<close> throws, control goes to
  the \<^verbatim>\<open>catch\<close> of line 394. On the request of owner 42 with the gateway reporting the
  payment: the balance stays 0, the entry stays pending, the hash is already in the
  processed set and the interval is cleared, so that the later return of a status request
  that was still under way, reporting the payment again, changes nothing. The same
  happens when the second message throws. A failing \<^verbatim>\<open>deleteMessage\<close>, which has a
  \<^verbatim>\<open>try\<close> of its own, does not stop the credit.
\<close>

theorem failed_confirmation_loses_credit:
  "users (tick 0 (paid_env\<lparr>t_send_confirmation_ok := False\<rparr>) state1) 42 = Some (Fin 0)
   \<and> map status (transactions (tick 0 (paid_env\<lparr>t_send_confirmation_ok := False\<rparr>) state1)) = [Pending]
   \<and> ''H1'' \<in> processedMd5 (tick 0 (paid_env\<lparr>t_send_confirmation_ok := False\<rparr>) state1)
   \<and> \<not> live (intervals (tick 0 (paid_env\<lparr>t_send_confirmation_ok := False\<rparr>) state1) ! 0)
   \<and> users (tick_post 0 paid_env (tick 0 (paid_env\<lparr>t_send_confirmation_ok := False\<rparr>) state1)) 42
        = Some (Fin 0)
   \<and> map status (transactions (tick_post 0 paid_env
          (tick 0 (paid_env\<lparr>t_send_confirmation_ok := False\<rparr>) state1))) = [Pending]
   \<and> users (tick 0 (paid_env\<lparr>t_send_thanks_ok := False\<rparr>) state1) 42 = Some (Fin 0)
   \<and> users (tick 0 (paid_env\<lparr>t_delete_ok := False\<rparr>) state1) 42 = Some (Fin 10)"
  by (simp add: state1_eq paid_env_def engine_defs Let_def)

section \<open>Gateway client: results\<close>








lemma paid_iff:
  "success_and_paid (checkPaymentStatus resp) \<longleftrightarrow>
     (\<exists>st. (st = 200 \<or> st = 201) \<and> resp = Response st (Some (Code_num 0)))"
  by (auto simp: checkPaymentStatus_def success_and_paid_def axios_throws_def Let_def
           split: http.splits option.splits)

lemma not_paid_success:
  "(st = 200 \<or> st = 201) \<Longrightarrow> code \<noteq> Code_num 0 \<Longrightarrow>
   checkPaymentStatus (Response st (Some code)) = Check_success False code"
  by (auto simp: checkPaymentStatus_def axios_throws_def)

lemma check_failed_iff:
  "check_failed (checkPaymentStatus resp) \<longleftrightarrow>
     (case resp of Transport_failure \<Rightarrow> True | Response st body \<Rightarrow> st \<noteq> 200 \<and> st \<noteq> 201)"
  by (auto simp: checkPaymentStatus_def check_failed_def axios_throws_def Let_def
           split: http.splits)

lemma check_failed_unpaid: "check_failed r \<Longrightarrow> \<not> success_and_paid r"
  by (cases r) (simp_all add: check_failed_def success_and_paid_def)

lemma tick_post_unpaid_fields:
  assumes "unpaid e"
  shows "users (tick_post h e s) = users s"
    and "processedMd5 (tick_post h e s) = processedMd5 s"
    and "outbox (tick_post h e s) = outbox s"
    and "deleted (tick_post h e s) = deleted s"
    and "paymentCheckers (tick_post h e s) = paymentCheckers s"
  using assms by (simp_all add: tick_post_def unpaid_def Let_def)

lemma tick_post_unpaid_early:
  assumes "unpaid e" "h < length (intervals s)" "Suc (checkCount (intervals s ! h)) < maxChecks"
  shows "tick_post h e s = bump h s"
  using assms by (simp add: tick_post_def unpaid_def Let_def bump_nth)

text \<open>
  Claim C8, amended. \<^verbatim>\<open>checkPaymentStatus\<close> reports a payment exactly when the gateway
  answers with status 200 or 201 and the number 0 as response code; any other response
  code on such an answer gives a successful result that is not paid; a transport failure
  and every other status (outside 200..299, or 2xx other than 200 and 201) give an error
  result. A tick whose status request ends in an error result does not settle: balances,
  processed set and completed entries stay as they are, and below the tick bound the tick
  only counts, the interval staying scheduled as it was.
\<close>

theorem status_check_and_failed_tick:
  "(success_and_paid (checkPaymentStatus resp) \<longleftrightarrow>
      (\<exists>st. (st = 200 \<or> st = 201) \<and> resp = Response st (Some (Code_num 0))))
   \<and> ((st = 200 \<or> st = 201) \<and> code \<noteq> Code_num 0 \<longrightarrow>
        checkPaymentStatus (Response st (Some code)) = Check_success False code)
   \<and> (check_failed (checkPaymentStatus resp) \<longleftrightarrow>
        (case resp of Transport_failure \<Rightarrow> True | Response st body \<Rightarrow> st \<noteq> 200 \<and> st \<noteq> 201))
   \<and> (check_failed (checkPaymentStatus (t_status e)) \<longrightarrow>
        users (tick_post h e s) = users s
      \<and> processedMd5 (tick_post h e s) = processedMd5 s
      \<and> completed_for m (transactions (tick_post h e s)) = completed_for m (transactions s)
      \<and> (h < length (intervals s) \<and> Suc (checkCount (intervals s ! h)) < maxChecks \<longrightarrow>
            tick_post h e s = bump h s
          \<and> live (intervals (tick_post h e s) ! h) = live (intervals s ! h)
          \<and> checkCount (intervals (tick_post h e s) ! h) = Suc (checkCount (intervals s ! h))))"
proof -
  have loop: "users (tick_post h e s) = users s
      \<and> processedMd5 (tick_post h e s) = processedMd5 s
      \<and> completed_for m (transactions (tick_post h e s)) = completed_for m (transactions s)
      \<and> (h < length (intervals s) \<and> Suc (checkCount (intervals s ! h)) < maxChecks \<longrightarrow>
            tick_post h e s = bump h s
          \<and> live (intervals (tick_post h e s) ! h) = live (intervals s ! h)
          \<and> checkCount (intervals (tick_post h e s) ! h) = Suc (checkCount (intervals s ! h)))"
    if f: "check_failed (checkPaymentStatus (t_status e))"
  proof -
    from f have u: "unpaid e" by (simp add: unpaid_def check_failed_unpaid)
    have c: "completed_for m (markExpired m' u' ok rows) = completed_for m rows" for m' u' ok rows
      by (induction rows) (auto simp: completed_for_def markExpired_def)
    have "completed_for m (transactions (tick_post h e s)) = completed_for m (transactions s)"
      using u by (simp add: tick_post_def unpaid_def Let_def c)
    then show ?thesis
      using tick_post_unpaid_fields(1,2) [OF u] tick_post_unpaid_early [OF u]
      by (simp add: bump_nth)
  qed
  show ?thesis
    using paid_iff [of resp] not_paid_success [of st code] check_failed_iff [of resp] loop
    by blast
qed

text \<open>
  A transport failure on the first tick of the request of owner 42: the hypotheses hold,
  nothing is credited and the loop goes on.
\<close>

theorem status_check_witness:
  "(check_failed (checkPaymentStatus (t_status (paid_env\<lparr>t_status := Transport_failure\<rparr>)))
    \<and> 0 < length (intervals state1) \<and> Suc (checkCount (intervals state1 ! 0)) < maxChecks)
   \<and> users (tick_post 0 (paid_env\<lparr>t_status := Transport_failure\<rparr>) state1) = users state1
   \<and> processedMd5 (tick_post 0 (paid_env\<lparr>t_status := Transport_failure\<rparr>) state1) = processedMd5 state1
   \<and> live (intervals (tick_post 0 (paid_env\<lparr>t_status := Transport_failure\<rparr>) state1) ! 0)
        = live (intervals state1 ! 0)"
proof -
  let ?e = "paid_env\<lparr>t_status := Transport_failure\<rparr>"
  have h: "check_failed (checkPaymentStatus (t_status ?e))
    \<and> 0 < length (intervals state1) \<and> Suc (checkCount (intervals state1 ! 0)) < maxChecks"
    by (simp add: paid_env_def checkPaymentStatus_def check_failed_def state1_eq maxChecks_def)
  from status_check_and_failed_tick [of Transport_failure 200 Code_missing ?e 0 state1 "''H1''"] h
  have "users (tick_post 0 ?e state1) = users state1
   \<and> processedMd5 (tick_post 0 ?e state1) = processedMd5 state1
   \<and> live (intervals (tick_post 0 ?e state1) ! 0) = live (intervals state1 ! 0)"
    by blast
  with h show ?thesis by blast
qed

text \<open>
  The claim as stated has a payment reported whenever the response carries response code
  0, and an error only for transport failures and statuses outside 2xx. The status 202
  is inside 2xx, the body carries the code 0, and the result is an error.
\<close>

theorem paid_needs_200_counterexample:
  "\<not> success_and_paid (checkPaymentStatus (Response 202 (Some (Code_num 0))))
   \<and> check_failed (checkPaymentStatus (Response 202 (Some (Code_num 0))))
   \<and> \<not> axios_throws (Response 202 (Some (Code_num 0)))"
  by (simp add: checkPaymentStatus_def success_and_paid_def check_failed_def axios_throws_def)

section \<open>Superseding a pending request\<close>

lemma generateQR_started:
  assumes "accepted a e"
      and "created e = QR_success url b64 raw m tid"
      and "truthy url" "m \<noteq> []"
      and "deliver_qr (the url) a e = Some (photo, mid)"
  shows "generateQR c a e s =
     (Returned, start_polling c a url m tid mid e
        ((clearUserPaymentChecker c
            ((loadSettings (env_min e) (env_max e) s)\<lparr>create_calls := Suc (create_calls s)\<rparr>))
         \<lparr>outbox := outbox s @ [(c, photo)]\<rparr>))"
  using assms
  by (simp add: generateQR_def accepted_def rejects_def created_def Let_def loadSettings_def
        clearUserPaymentChecker_def clearInterval_def split: option.splits)

lemma clear_fields [simp]:
  "transactions (clearUserPaymentChecker c s) = transactions s"
  "users (clearUserPaymentChecker c s) = users s"
  "timeouts (clearUserPaymentChecker c s) = timeouts s"
  "outbox (clearUserPaymentChecker c s) = outbox s"
  "deleted (clearUserPaymentChecker c s) = deleted s"
  "processedMd5 (clearUserPaymentChecker c s) = processedMd5 s"
  "create_calls (clearUserPaymentChecker c s) = create_calls s"
  "length (intervals (clearUserPaymentChecker c s)) = length (intervals s)"
  "paymentCheckers (clearUserPaymentChecker c s) = (paymentCheckers s)(c := None)"
  by (simp_all add: clearUserPaymentChecker_def clearInterval_def Let_def split: option.splits)


lemma start_polling_fields:
  "users (start_polling c a url m tid mid e s) = users s"
  "processedMd5 (start_polling c a url m tid mid e s) = processedMd5 s"
  "outbox (start_polling c a url m tid mid e s) = outbox s"
  "deleted (start_polling c a url m tid mid e s) = deleted s"
  "create_calls (start_polling c a url m tid mid e s) = create_calls s"
  "timeouts (start_polling c a url m tid mid e s) = timeouts s @ [c]"
  "intervals (start_polling c a url m tid mid e s) =
     intervals s @ [\<lparr>iv_userId = c, iv_md5 = m, iv_amount = a, checkCount = 0, live = True\<rparr>]"
  "activeIntervals (start_polling c a url m tid mid e s) =
     (activeIntervals s)(c \<mapsto> length (intervals s))"
  "paymentCheckers (start_polling c a url m tid mid e s) =
     (paymentCheckers s)(c \<mapsto> \<lparr>md5 = m, tran_id = tid, message_id = mid, timestamp = env_now e,
                                 amount = a, completed = False\<rparr>)"
  "take (length (transactions s)) (transactions (start_polling c a url m tid mid e s))
     = transactions s"
  "\<not> env_create_tx_ok e \<Longrightarrow> transactions (start_polling c a url m tid mid e s) = transactions s"
  by (simp_all add: start_polling_def Let_def deleteQRAfterTimeout_def autoCheckTransaction_def)












section \<open>Reaching the tick bound\<close>

lemma tick_unpaid_early:
  assumes "pollable h s" "unpaid e" "Suc (checkCount (intervals s ! h)) < maxChecks"
  shows "tick h e s = bump h s"
  using assms
  by (auto simp: tick_def tick_pre_def tick_post_def pollable_def unpaid_def Let_def bump_nth)

lemma tick_unpaid_last:
  assumes "pollable h s" "unpaid e" "Suc (checkCount (intervals s ! h)) = maxChecks"
  shows "tick h e s =
     (stop_checker h (bump h s))\<lparr>transactions :=
        markExpired (iv_md5 (intervals s ! h)) (iv_userId (intervals s ! h)) (t_expire_ok e)
          (transactions s)\<rparr>"
  using assms
  by (auto simp: tick_def tick_pre_def tick_post_def pollable_def unpaid_def Let_def bump_nth)

lemma tick_paid:
  assumes "pollable h s" "success_and_paid (checkPaymentStatus (t_status e))"
  shows "tick h e s = settle h e s"
  using assms by (auto simp: tick_def tick_pre_def tick_post_def pollable_def)

lemma bump_pollable: "pollable h s \<Longrightarrow> pollable h (bump h s)"
  by (simp add: pollable_def bump_nth)

lemma bump_closure:
  "h < length (intervals s) \<Longrightarrow>
     checkCount (intervals (bump h s) ! h) = Suc (checkCount (intervals s ! h))
   \<and> iv_md5 (intervals (bump h s) ! h) = iv_md5 (intervals s ! h)
   \<and> iv_userId (intervals (bump h s) ! h) = iv_userId (intervals s ! h)
   \<and> iv_amount (intervals (bump h s) ! h) = iv_amount (intervals s ! h)"
  by (simp add: bump_nth)

lemma run_ticks_early:
  assumes "pollable h s" "\<forall>e \<in> set es. unpaid e"
      and "checkCount (intervals s ! h) + length es < maxChecks"
  shows "pollable h (run_ticks h es s)
       \<and> checkCount (intervals (run_ticks h es s) ! h) = checkCount (intervals s ! h) + length es
       \<and> iv_md5 (intervals (run_ticks h es s) ! h) = iv_md5 (intervals s ! h)
       \<and> iv_userId (intervals (run_ticks h es s) ! h) = iv_userId (intervals s ! h)
       \<and> paymentCheckers (run_ticks h es s) = paymentCheckers s
       \<and> processedMd5 (run_ticks h es s) = processedMd5 s
       \<and> users (run_ticks h es s) = users s
       \<and> transactions (run_ticks h es s) = transactions s
       \<and> outbox (run_ticks h es s) = outbox s
       \<and> deleted (run_ticks h es s) = deleted s
       \<and> timeouts (run_ticks h es s) = timeouts s"
  using assms
proof (induction es arbitrary: s)
  case Nil
  then show ?case by simp
next
  case (Cons e es)
  from Cons.prems have t: "tick h e s = bump h s"
    by (intro tick_unpaid_early) simp_all
  have h: "h < length (intervals s)" using Cons.prems(1) by (simp add: pollable_def)
  have p: "pollable h (bump h s)" using Cons.prems(1) by (rule bump_pollable)
  have c: "checkCount (intervals (bump h s) ! h) + length es < maxChecks"
    using Cons.prems(3) bump_closure [OF h] by simp
  from Cons.IH [OF p _ c] Cons.prems(2) bump_closure [OF h] show ?case
    by (simp add: t)
qed

lemma run_ticks_append: "run_ticks h (es @ fs) s = run_ticks h fs (run_ticks h es s)"
  by (induction es arbitrary: s) simp_all

lemma run_ticks_bound:
  assumes p: "pollable h s" and c0: "checkCount (intervals s ! h) = 0"
      and len: "length es = maxChecks" and un: "\<forall>e \<in> set es. unpaid e"
  shows "transactions (run_ticks h es s) =
           markExpired (iv_md5 (intervals s ! h)) (iv_userId (intervals s ! h))
             (t_expire_ok (last es)) (transactions s)"
    and "users (run_ticks h es s) = users s"
    and "\<not> live (intervals (run_ticks h es s) ! h)"
    and "paymentCheckers (run_ticks h es s) = paymentCheckers s"
    and "processedMd5 (run_ticks h es s) = processedMd5 s"
    and "outbox (run_ticks h es s) = outbox s"
    and "deleted (run_ticks h es s) = deleted s"
    and "timeouts (run_ticks h es s) = timeouts s"
proof -
  from len have ne: "es \<noteq> []" by (auto simp: maxChecks_def)
  define fs where "fs = butlast es"
  define e where "e = last es"
  have es: "es = fs @ [e]" using ne by (simp add: fs_def e_def)
  let ?s = "run_ticks h fs s"
  have lf: "Suc (length fs) = maxChecks" using len es by simp
  have unf: "\<forall>e \<in> set fs. unpaid e" and une: "unpaid e" using un es by simp_all
  have early: "pollable h ?s"
     "checkCount (intervals ?s ! h) = checkCount (intervals s ! h) + length fs"
     "iv_md5 (intervals ?s ! h) = iv_md5 (intervals s ! h)"
     "iv_userId (intervals ?s ! h) = iv_userId (intervals s ! h)"
     "paymentCheckers ?s = paymentCheckers s"
     "processedMd5 ?s = processedMd5 s"
     "users ?s = users s"
     "transactions ?s = transactions s"
     "outbox ?s = outbox s"
     "deleted ?s = deleted s"
     "timeouts ?s = timeouts s"
    using run_ticks_early [OF p unf] c0 lf by simp_all
  have cnt: "Suc (checkCount (intervals ?s ! h)) = maxChecks"
    using early(2) c0 lf by simp
  have run: "run_ticks h es s = tick h e ?s" by (simp add: es run_ticks_append)
  have hl: "h < length (intervals ?s)" using early(1) by (simp add: pollable_def)
  note t = tick_unpaid_last [OF early(1) une cnt]
  show "transactions (run_ticks h es s) =
           markExpired (iv_md5 (intervals s ! h)) (iv_userId (intervals s ! h))
             (t_expire_ok (last es)) (transactions s)"
    unfolding run t by (simp add: early e_def)
  show "users (run_ticks h es s) = users s" by (simp add: run t early)
  show "\<not> live (intervals (run_ticks h es s) ! h)"
    using hl by (simp add: run t stop_checker_nth)
  show "paymentCheckers (run_ticks h es s) = paymentCheckers s" by (simp add: run t early)
  show "processedMd5 (run_ticks h es s) = processedMd5 s" by (simp add: run t early)
  show "outbox (run_ticks h es s) = outbox s" by (simp add: run t early)
  show "deleted (run_ticks h es s) = deleted s" by (simp add: run t early)
  show "timeouts (run_ticks h es s) = timeouts s" by (simp add: run t early)
qed

lemma state1_pollable: "pollable 0 state1 \<and> checkCount (intervals state1 ! 0) = 0"
  by (simp add: pollable_def state1_eq)

lemma unpaid_env_unpaid: "unpaid unpaid_env"
  by (simp add: unpaid_def unpaid_env_def paid_env_def checkPaymentStatus_def
        success_and_paid_def)

text \<open>
  Claim C5. The claim has the ledger entry of a payment that is never paid move from
  pending to expired in every interleaving of the tick bound and the expiry timer. The
  interval (line 271) and the one-shot timer (line 274) are armed in the same synchronous
  stretch, the one with 600 firings of 1000 ms and the other with 600000 ms, so the timer
  is due no later than the 600th firing. On the request of owner 42 for 10 USD with hash
  \<open>H1\<close>, every status request answering with response code 1: after 599 counted
  ticks the loop is scheduled with its counter at 599 and the timer is queued; the timer
  fires, deletes the QR message 100, discards the payment request and sends the expiry
  notice; the 600th firing finds no payment request, clears the interval at lines 298-303
  and returns before the counter and the statement of line 389 are reached. The entry
  stays pending, also after further firings, and the balance stays 0. Without the timer in
  between, the 600th tick sets the entry to expired.
\<close>

theorem expiry_timer_before_last_tick:
  "pollable 0 (run_ticks 0 (replicate 599 unpaid_env) state1)
   \<and> checkCount (intervals (run_ticks 0 (replicate 599 unpaid_env) state1) ! 0) = 599
   \<and> timeouts (run_ticks 0 (replicate 599 unpaid_env) state1) = [42]
   \<and> paymentCheckers (fire_timeout timer_ok (run_ticks 0 (replicate 599 unpaid_env) state1)) 42
       = None
   \<and> deleted (fire_timeout timer_ok (run_ticks 0 (replicate 599 unpaid_env) state1))
       = [(42, 100)]
   \<and> outbox (fire_timeout timer_ok (run_ticks 0 (replicate 599 unpaid_env) state1))
       = [(42, Photo_styled ''https://qr/H1'' (Fin 10) 100), (42, Text_expired)]
   \<and> \<not> live (intervals (tick 0 unpaid_env
         (fire_timeout timer_ok (run_ticks 0 (replicate 599 unpaid_env) state1))) ! 0)
   \<and> map status (transactions (tick 0 unpaid_env
         (fire_timeout timer_ok (run_ticks 0 (replicate 599 unpaid_env) state1)))) = [Pending]
   \<and> map status (transactions (run_ticks 0 (replicate 10 unpaid_env) (tick 0 unpaid_env
         (fire_timeout timer_ok (run_ticks 0 (replicate 599 unpaid_env) state1))))) = [Pending]
   \<and> users (tick 0 unpaid_env
         (fire_timeout timer_ok (run_ticks 0 (replicate 599 unpaid_env) state1))) 42
       = Some (Fin 0)
   \<and> map status (transactions (run_ticks 0 (replicate 600 unpaid_env) state1)) = [Expired]"
proof -
  define s where "s = run_ticks 0 (replicate 599 unpaid_env) state1"
  define f where "f = fire_timeout timer_ok s"
  define t where "t = tick 0 unpaid_env f"
  have un: "\<forall>e \<in> set (replicate 599 unpaid_env). unpaid e"
    by (simp add: unpaid_env_unpaid)
  have un6: "\<forall>e \<in> set (replicate 600 unpaid_env). unpaid e"
    by (simp add: unpaid_env_unpaid)
  have p1: "pollable 0 state1" and c1: "checkCount (intervals state1 ! 0) = 0"
    using state1_pollable by simp_all
  have lt: "checkCount (intervals state1 ! 0) + length (replicate 599 unpaid_env) < maxChecks"
    by (simp add: c1 maxChecks_def)
  from run_ticks_early [OF p1 un lt]
  have e: "pollable 0 s" "checkCount (intervals s ! 0) = 599"
     "iv_userId (intervals s ! 0) = 42"
     "paymentCheckers s = paymentCheckers state1"
     "users s = users state1" "transactions s = transactions state1"
     "outbox s = outbox state1" "deleted s = deleted state1" "timeouts s = [42]"
    unfolding s_def by (simp_all add: c1 state1_eq)
  have pc: "paymentCheckers s 42 = Some \<lparr>md5 = ''H1'', tran_id = ''T1'', message_id = 100,
      timestamp = 0, amount = Fin 10, completed = False\<rparr>"
    by (simp add: e(4) state1_eq)
  have f: "f = s\<lparr>timeouts := [], deleted := deleted s @ [(42, 100)],
                 paymentCheckers := (paymentCheckers s)(42 := None),
                 outbox := outbox s @ [(42, Text_expired)]\<rparr>"
    by (simp add: f_def fire_timeout_def expire_callback_def e(9) pc timer_ok_def Let_def)
  have fi: "intervals f = intervals s" "paymentCheckers f 42 = None"
     "transactions f = transactions s" "users f = users s"
     "deleted f = [(42, 100)]"
     "outbox f = [(42, Photo_styled ''https://qr/H1'' (Fin 10) 100), (42, Text_expired)]"
    by (simp_all add: f e state1_eq)
  have h: "0 < length (intervals s)" "live (intervals s ! 0)"
    using e(1) by (simp_all add: pollable_def)
  have t: "t = stop_checker 0 f"
    using h by (simp add: t_def tick_def tick_pre_def fi e(3))
  have tl: "\<not> live (intervals t ! 0)"
    using h by (simp add: t stop_checker_nth fi)
  have tt: "transactions t = transactions state1" "users t = users state1"
    by (simp_all add: t fi e)
  have idle: "tick 0 e' t = t" for e'
    using tl by (simp add: tick_def)
  have later: "run_ticks 0 es t = t" for es
    by (induction es) (simp_all add: idle)
  have x: "transactions (run_ticks 0 (replicate 600 unpaid_env) state1)
      = markExpired ''H1'' 42 True (transactions state1)"
    using run_ticks_bound(1) [OF p1 c1 _ un6]
    by (simp add: maxChecks_def state1_eq unpaid_env_def paid_env_def)
  have "map status (transactions (run_ticks 0 (replicate 600 unpaid_env) state1)) = [Expired]"
    unfolding x by (simp add: state1_eq markExpired_def matches_def)
  moreover have "map status (transactions t) = [Pending]" "users t 42 = Some (Fin 0)"
    by (simp_all add: tt state1_eq)
  moreover have "map status (transactions (run_ticks 0 (replicate 10 unpaid_env) t)) = [Pending]"
    unfolding later by (simp add: tt state1_eq)
  ultimately show ?thesis
    using e(1,2,9) fi(2,5,6) tl unfolding t_def f_def s_def by blast
qed

section \<open>Completion after expiry\<close>

lemma tick_post_closure:
  assumes "k < length (intervals s)" "h < length (intervals s)"
  shows "iv_md5 (intervals (tick_post k e s) ! h) = iv_md5 (intervals s ! h)
       \<and> iv_userId (intervals (tick_post k e s) ! h) = iv_userId (intervals s ! h)
       \<and> iv_amount (intervals (tick_post k e s) ! h) = iv_amount (intervals s ! h)
       \<and> length (intervals (tick_post k e s)) = length (intervals s)"
  using assms
  by (simp add: tick_post_def Let_def settle_nth_fields stop_checker_nth bump_nth)

lemma tick_closure:
  assumes "h < length (intervals s)"
  shows "iv_md5 (intervals (tick k e s) ! h) = iv_md5 (intervals s ! h)
       \<and> iv_userId (intervals (tick k e s) ! h) = iv_userId (intervals s ! h)
       \<and> iv_amount (intervals (tick k e s) ! h) = iv_amount (intervals s ! h)
       \<and> length (intervals (tick k e s)) = length (intervals s)"
  using assms tick_post_closure [of k s h e]
  by (auto simp: tick_def tick_pre_def stop_checker_nth)

lemma run_ticks_closure:
  assumes "h < length (intervals s)"
  shows "iv_md5 (intervals (run_ticks k es s) ! h) = iv_md5 (intervals s ! h)
       \<and> iv_userId (intervals (run_ticks k es s) ! h) = iv_userId (intervals s ! h)
       \<and> iv_amount (intervals (run_ticks k es s) ! h) = iv_amount (intervals s ! h)
       \<and> length (intervals (run_ticks k es s)) = length (intervals s)"
  using assms
proof (induction es arbitrary: s)
  case Nil
  then show ?case by simp
next
  case (Cons e es)
  from tick_closure [OF Cons.prems, of k e] have "h < length (intervals (tick k e s))" 
    using Cons.prems by simp
  from Cons.IH [OF this] tick_closure [OF Cons.prems, of k e] show ?case by simp
qed

text \<open>
  Claim C9. The claim asks that an entry in a terminal state is never changed again. The
  completing \<^verbatim>\<open>UPDATE\<close> of line 354 selects by hash and user only, without the test
  \<^verbatim>\<open>status = "pending"\<close> that the expiring \<^verbatim>\<open>UPDATE\<close> of line 389 has. On the
  request of owner 42: 600 ticks see no payment and the last one marks the entry of
  \<open>H1\<close> expired; one more firing of the callback had sent its status request before
  the interval was cleared, and its answer, arriving at 601000, reports the payment. The
  expired entry becomes completed and receives a completion date. The expiring statement,
  for its part, leaves the completed entry alone.
\<close>

theorem completed_overwrites_expired:
  "map status (transactions (run_ticks 0 (replicate 600 unpaid_env) state1)) = [Expired]
   \<and> map status (transactions (tick_post 0 (paid_env\<lparr>t_now := 601000, t_db_now := 601000\<rparr>)
         (run_ticks 0 (replicate 600 unpaid_env) state1))) = [Completed]
   \<and> map completed_date (transactions (tick_post 0 (paid_env\<lparr>t_now := 601000, t_db_now := 601000\<rparr>)
         (run_ticks 0 (replicate 600 unpaid_env) state1))) = [Some 601000]
   \<and> map status (markExpired ''H1'' 42 True
        (transactions (tick_post 0 (paid_env\<lparr>t_now := 601000, t_db_now := 601000\<rparr>)
           (run_ticks 0 (replicate 600 unpaid_env) state1)))) = [Completed]"
proof -
  let ?s = "run_ticks 0 (replicate 600 unpaid_env) state1"
  let ?e = "paid_env\<lparr>t_now := 601000, t_db_now := 601000\<rparr>"
  have p: "pollable 0 state1" by (simp add: pollable_def state1_eq)
  have c0: "checkCount (intervals state1 ! 0) = 0" by (simp add: state1_eq)
  have len: "length (replicate 600 unpaid_env) = maxChecks" by (simp add: maxChecks_def)
  have un: "\<forall>e \<in> set (replicate 600 unpaid_env). unpaid e"
    by (simp add: unpaid_def unpaid_env_def paid_env_def checkPaymentStatus_def
          axios_throws_def success_and_paid_def)
  note b = run_ticks_bound [OF p c0 len un]
  have h: "0 < length (intervals state1)" by (simp add: state1_eq)
  note cl = run_ticks_closure [OF h, of 0 "replicate 600 unpaid_env"]
  have tr: "transactions ?s =
      [\<lparr>user_id = 42, type_of = Topup, row_amount = Fin 10, status = Expired,
        md5_hash = Some ''H1'', row_message_id = Some 100,
        qr_url = Some ''https://qr/H1'', transaction_id = Gateway_id ''T1'',
        row_timestamp = 0, completed_date = None\<rparr>]"
    unfolding b(1)
    by (simp add: state1_eq markExpired_def matches_def unpaid_env_def paid_env_def)
  have iv: "iv_md5 (intervals ?s ! 0) = ''H1''" "iv_userId (intervals ?s ! 0) = 42"
    "iv_amount (intervals ?s ! 0) = Fin 10"
    using cl by (simp_all add: state1_eq)
  have fresh: "iv_md5 (intervals ?s ! 0) \<notin> processedMd5 ?s"
    unfolding iv b(5) by (simp add: state1_eq)
  have paid: "success_and_paid (checkPaymentStatus (t_status ?e))"
    by (simp add: paid_env_def checkPaymentStatus_def axios_throws_def success_and_paid_def)
  have msgs: "t_send_confirmation_ok ?e" "t_send_thanks_ok ?e" by (simp_all add: paid_env_def)
  have post: "tick_post 0 ?e ?s = settle 0 ?e ?s" using paid by (simp add: tick_post_def)
  have after: "transactions (tick_post 0 ?e ?s) =
      [\<lparr>user_id = 42, type_of = Topup, row_amount = Fin 10, status = Completed,
        md5_hash = Some ''H1'', row_message_id = Some 100,
        qr_url = Some ''https://qr/H1'', transaction_id = Gateway_id ''T1'',
        row_timestamp = 0, completed_date = Some 601000\<rparr>]"
    unfolding post settle_effect(2) [OF fresh msgs] iv tr
    by (simp add: paid_env_def markCompleted_def matches_def)
  show ?thesis unfolding after tr by (simp add: markExpired_def matches_def)
qed

section \<open>A lost pending write\<close>

text \<open>
  Claim C10. When the insert of the pending row fails during \<^verbatim>\<open>generateQR\<close> (the
  amount is accepted, the gateway issues a hash, the QR photo is delivered), the call
  still returns normally with the photo delivered, the ledger unchanged, the poll loop
  registered under a fresh handle and the expiry timer queued. When a later tick of that
  loop sees the payment, with both messages sent and the ledger statements succeeding,
  the ledger holds a completed entry of that hash and owner; and when no row of that hash
  and owner existed, it is the ledger as it was with one completed row inserted at its end.
\<close>

theorem lost_pending_write_still_completes:
  assumes acc: "accepted a e" and cr: "created e = QR_success url b64 raw m tid"
      and url: "truthy url" and m: "m \<noteq> []"
      and sent: "deliver_qr (the url) a e = Some (photo, mid)"
      and lost: "\<not> env_create_tx_ok e"
      and fresh: "m \<notin> processedMd5 s"
      and paid: "success_and_paid (checkPaymentStatus (t_status e'))"
      and msgs: "t_send_confirmation_ok e'" "t_send_thanks_ok e'"
      and db: "t_complete_ok e'" "t_insert_ok e'"
  shows "fst (generateQR c a e s) = Returned
       \<and> outbox (snd (generateQR c a e s)) = outbox s @ [(c, photo)]
       \<and> transactions (snd (generateQR c a e s)) = transactions s
       \<and> intervals (snd (generateQR c a e s)) ! length (intervals s)
            = \<lparr>iv_userId = c, iv_md5 = m, iv_amount = a, checkCount = 0, live = True\<rparr>
       \<and> timeouts (snd (generateQR c a e s)) = timeouts s @ [c]
       \<and> (\<exists>r \<in> set (transactions (tick (length (intervals s)) e' (snd (generateQR c a e s)))).
             md5_hash r = Some m \<and> user_id r = c \<and> status r = Completed)
       \<and> (filter (matches m c) (transactions s) = [] \<longrightarrow>
             transactions (tick (length (intervals s)) e' (snd (generateQR c a e s)))
               = transactions s @
                 [\<lparr>user_id = c, type_of = Topup, row_amount = a, status = Completed,
                   md5_hash = Some m, row_message_id = None, qr_url = None,
                   transaction_id = Topup_stamp (t_now e') c,
                   row_timestamp = t_db_now e', completed_date = Some (t_db_now e')\<rparr>])"
proof -
  let ?s0 = "(loadSettings (env_min e) (env_max e) s)\<lparr>create_calls := Suc (create_calls s)\<rparr>"
  let ?s1 = "(clearUserPaymentChecker c ?s0)\<lparr>outbox := outbox s @ [(c, photo)]\<rparr>"
  let ?s2 = "snd (generateQR c a e s)"
  let ?h = "length (intervals s)"
  note st = generateQR_started [OF acc cr url m sent, of c s]
  have g: "?s2 = start_polling c a url m tid mid e ?s1" by (simp add: st)
  have s0: "intervals ?s0 = intervals s" "transactions ?s0 = transactions s"
    "timeouts ?s0 = timeouts s" "processedMd5 ?s0 = processedMd5 s"
    by (simp_all add: loadSettings_def)
  have len: "length (intervals ?s1) = ?h" by (simp add: s0)
  have iv: "intervals ?s2 ! ?h
      = \<lparr>iv_userId = c, iv_md5 = m, iv_amount = a, checkCount = 0, live = True\<rparr>"
    unfolding g start_polling_fields using len by (simp add: nth_append)
  have tr: "transactions ?s2 = transactions s"
    unfolding g using start_polling_fields(11) [OF lost] by (simp add: s0)
  have ob: "outbox ?s2 = outbox s @ [(c, photo)]" unfolding g start_polling_fields by simp
  have ti: "timeouts ?s2 = timeouts s @ [c]" unfolding g start_polling_fields by (simp add: s0)
  have pr: "processedMd5 ?s2 = processedMd5 s" unfolding g start_polling_fields by (simp add: s0)
  have pc: "paymentCheckers ?s2 c \<noteq> None" unfolding g start_polling_fields by simp
  have ln: "length (intervals ?s2) = Suc ?h" unfolding g start_polling_fields using len by simp
  have p: "pollable ?h ?s2"
    using fresh pc by (simp add: pollable_def iv ln pr)
  have t: "tick ?h e' ?s2 = settle ?h e' ?s2" using p paid by (rule tick_paid)
  have nf: "iv_md5 (intervals ?s2 ! ?h) \<notin> processedMd5 ?s2" using fresh by (simp add: iv pr)
  have compl: "transactions (tick ?h e' ?s2)
      = markCompleted m c a (t_now e') (t_db_now e') True True (transactions s)"
    unfolding t settle_effect(2) [OF nf msgs] using db by (simp add: iv tr)
  have ex: "\<exists>r \<in> set (transactions (tick ?h e' ?s2)).
             md5_hash r = Some m \<and> user_id r = c \<and> status r = Completed"
    unfolding compl by (rule markCompleted_has_completed)
  have ins: "transactions (tick ?h e' ?s2)
               = transactions s @
                 [\<lparr>user_id = c, type_of = Topup, row_amount = a, status = Completed,
                   md5_hash = Some m, row_message_id = None, qr_url = None,
                   transaction_id = Topup_stamp (t_now e') c,
                   row_timestamp = t_db_now e', completed_date = Some (t_db_now e')\<rparr>]"
    if "filter (matches m c) (transactions s) = []"
    unfolding compl using that by (simp add: markCompleted_def)
  have r: "fst (generateQR c a e s) = Returned" by (simp add: st)
  show ?thesis using r ob tr iv ti ex ins by blast
qed

text \<open>
  The request of owner 42 for 10 USD on the fresh controller, with the insert of the
  pending row failing, and a tick that sees the payment: the hypotheses hold and the
  ledger ends with the inserted completed row.
\<close>

theorem lost_pending_write_witness:
  "(accepted (Fin 10) (start_env1\<lparr>env_create_tx_ok := False\<rparr>)
    \<and> created (start_env1\<lparr>env_create_tx_ok := False\<rparr>)
        = QR_success (Some ''https://qr/H1'') (Some ''b64'') None ''H1'' ''T1''
    \<and> truthy (Some ''https://qr/H1'') \<and> ''H1'' \<noteq> []
    \<and> deliver_qr (the (Some ''https://qr/H1'')) (Fin 10) (start_env1\<lparr>env_create_tx_ok := False\<rparr>)
        = Some (Photo_styled ''https://qr/H1'' (Fin 10) 100, 100)
    \<and> \<not> env_create_tx_ok (start_env1\<lparr>env_create_tx_ok := False\<rparr>)
    \<and> ''H1'' \<notin> processedMd5 state0
    \<and> success_and_paid (checkPaymentStatus (t_status paid_env))
    \<and> t_send_confirmation_ok paid_env \<and> t_send_thanks_ok paid_env
    \<and> t_complete_ok paid_env \<and> t_insert_ok paid_env
    \<and> filter (matches ''H1'' 42) (transactions state0) = [])
   \<and> transactions (snd (generateQR 42 (Fin 10) (start_env1\<lparr>env_create_tx_ok := False\<rparr>) state0))
        = transactions state0
   \<and> transactions (tick (length (intervals state0)) paid_env
          (snd (generateQR 42 (Fin 10) (start_env1\<lparr>env_create_tx_ok := False\<rparr>) state0)))
        = transactions state0 @
            [\<lparr>user_id = 42, type_of = Topup, row_amount = Fin 10, status = Completed,
              md5_hash = Some ''H1'', row_message_id = None, qr_url = None,
              transaction_id = Topup_stamp (t_now paid_env) 42,
              row_timestamp = t_db_now paid_env, completed_date = Some (t_db_now paid_env)\<rparr>]"
proof -
  let ?e = "start_env1\<lparr>env_create_tx_ok := False\<rparr>"
  have h1: "accepted (Fin 10) ?e"
    by (simp add: accepted_def rejects_def start_env1_def js_or_def js_gt_def)
  have h2: "created ?e = QR_success (Some ''https://qr/H1'') (Some ''b64'') None ''H1'' ''T1''"
    by (simp add: created_def start_env1_def generateQRCode_def axios_throws_def truthy_def)
  have h3: "truthy (Some ''https://qr/H1'')" by (simp add: truthy_def)
  have h4: "''H1'' \<noteq> []" by simp
  have h5: "deliver_qr (the (Some ''https://qr/H1'')) (Fin 10) ?e
        = Some (Photo_styled ''https://qr/H1'' (Fin 10) 100, 100)"
    by (simp add: deliver_qr_def start_env1_def)
  have h6: "\<not> env_create_tx_ok ?e" by simp
  have h7: "''H1'' \<notin> processedMd5 state0" by (simp add: state0_def)
  have h8: "success_and_paid (checkPaymentStatus (t_status paid_env))"
    by (simp add: paid_env_def checkPaymentStatus_def axios_throws_def success_and_paid_def)
  have h9: "t_send_confirmation_ok paid_env" "t_send_thanks_ok paid_env"
    "t_complete_ok paid_env" "t_insert_ok paid_env"
    by (simp_all add: paid_env_def)
  have h10: "filter (matches ''H1'' 42) (transactions state0) = []" by (simp add: state0_def)
  from lost_pending_write_still_completes [OF h1 h2 h3 h4 h5 h6 h7 h8 h9, of 42] h10
  have "transactions (snd (generateQR 42 (Fin 10) ?e state0)) = transactions state0
   \<and> transactions (tick (length (intervals state0)) paid_env
          (snd (generateQR 42 (Fin 10) ?e state0)))
        = transactions state0 @
            [\<lparr>user_id = 42, type_of = Topup, row_amount = Fin 10, status = Completed,
              md5_hash = Some ''H1'', row_message_id = None, qr_url = None,
              transaction_id = Topup_stamp (t_now paid_env) 42,
              row_timestamp = t_db_now paid_env, completed_date = Some (t_db_now paid_env)\<rparr>]"
    by blast
  with h1 h2 h3 h4 h5 h6 h7 h8 h9 h10 show ?thesis by blast
qed

end
